theory Spec2Isabelle
  imports Main
begin

section \<open>Python values\<close>

text \<open>
  A Python \<open>str\<close> is a sequence of Unicode code points, so a character is modelled by
  its ordinal (\<open>ord\<close>) and a string by the list of its ordinals.  \<open>ascii\<close> writes a
  string literal of the source.
\<close>

type_synonym pychar = nat
type_synonym pystr = "nat list"

definition ascii :: "string \<Rightarrow> pystr" where
  "ascii s = map of_char s"

text \<open>
  The exceptions the program can raise, by class.  An exception raised by a \<open>raise\<close> or
  \<open>assert\<close> statement of the source carries the source's message; one raised by the
  interpreter (\<open>chr\<close>, a missing dictionary key, iterating or unpacking a value that is
  not iterable, exceeding the recursion limit) carries the key or a short description.
\<close>

datatype error =
    ValueError string
  | AttributeError string
  | AssertionError string
  | KeyError pystr
  | TypeError string
  | OverflowError
  | RecursionError

fun bind_err :: "error + 'a \<Rightarrow> ('a \<Rightarrow> error + 'b) \<Rightarrow> error + 'b" where
  "bind_err (Inl e) f = Inl e"
| "bind_err (Inr x) f = f x"

text \<open>
  The values \<open>json.loads\<close> produces: \<open>None\<close>, \<open>bool\<close>, \<open>int\<close>, \<open>str\<close>, \<open>list\<close> and
  \<open>dict\<close> (a \<open>dict\<close> keeps its insertion order; its keys are strings).  JSON numbers with
  a fraction or an exponent (Python floats) are not modelled.
\<close>

datatype json =
    JNull
  | JBool bool
  | JInt int
  | JStr pystr
  | JArr "json list"
  | JObj "(pystr \<times> json) list"

text \<open>Truth value testing, as \<open>if x:\<close> does it.\<close>

fun truthy :: "json \<Rightarrow> bool" where
  "truthy JNull = False"
| "truthy (JBool b) = b"
| "truthy (JInt i) = (i \<noteq> 0)"
| "truthy (JStr s) = (s \<noteq> [])"
| "truthy (JArr xs) = (xs \<noteq> [])"
| "truthy (JObj d) = (d \<noteq> [])"

text \<open>
  \<open>for x in v\<close>: a list yields its elements, a string its characters (each a string of
  length one), a dict its keys; anything else raises \<open>TypeError\<close>.
\<close>

fun py_iter :: "json \<Rightarrow> error + json list" where
  "py_iter (JArr xs) = Inr xs"
| "py_iter (JStr s) = Inr (map (\<lambda>c. JStr [c]) s)"
| "py_iter (JObj d) = Inr (map (\<lambda>kv. JStr (fst kv)) d)"
| "py_iter v = Inl (TypeError ''object is not iterable'')"

text \<open>
  \<open>chr(i)\<close> for \<open>i\<close> from 0 up to the largest C \<open>int\<close>: a string of length one, or
  \<open>ValueError\<close>.
\<close>

definition py_chr :: "nat \<Rightarrow> error + pystr" where
  "py_chr i = (if i < 0x110000 then Inr [i] else Inl (ValueError ''chr() arg not in range(0x110000)''))"

text \<open>Comparison \<open>s <= t\<close> of two strings: lexicographic, by ordinal.\<close>

fun str_le :: "pystr \<Rightarrow> pystr \<Rightarrow> bool" where
  "str_le [] t = True"
| "str_le (x # xs) [] = False"
| "str_le (x # xs) (y # ys) = (x < y \<or> (x = y \<and> str_le xs ys))"

section \<open>The AST nodes (codec2ast.py)\<close>

datatype OPS = OPS_land | OPS_lor | OPS_eq | OPS_lt | OPS_gt | OPS_lte | OPS_gte

text \<open>
  One constructor per node class.  A \<open>Codepoint\<close> holds a string of length one, modelled
  by its ordinal; \<open>Builtin\<close> is \<open>Codec.Builtin\<close>, the only concrete subclass of
  \<open>BuiltinEmitter\<close>; \<open>IfNode\<close> is the class \<open>If\<close> with its fields \<open>condition\<close>, \<open>iftrue\<close>
  and \<open>iffalse\<close>.
\<close>

datatype node =
    Codepoint pychar
  | Candidate
  | BinOp OPS node node
  | Bool bool
  | Nop
  | Builtin pystr
  | ConstantEmitter pystr
  | EmitterList "node list"
  | IfNode node node node

text \<open>The mixins \<open>Guard\<close> and \<open>Emitter\<close>: which classes \<open>isinstance\<close> accepts.\<close>

fun isGuard :: "node \<Rightarrow> bool" where
  "isGuard (BinOp _ _ _) = True"
| "isGuard (Bool _) = True"
| "isGuard _ = False"

fun isEmitter :: "node \<Rightarrow> bool" where
  "isEmitter Nop = True"
| "isEmitter (Builtin _) = True"
| "isEmitter (ConstantEmitter _) = True"
| "isEmitter (EmitterList _) = True"
| "isEmitter _ = False"

text \<open>
  \<open>Codepoint.__init__\<close> through the \<open>codepoint\<close> setter.  \<open>unicodedata.lookup\<close> is the
  parameter \<open>lookup\<close>: the character of a Unicode name, or \<open>None\<close> where the library
  raises \<open>KeyError\<close>.  \<open>chr\<close> raises \<open>OverflowError\<close> for an integer that is no C \<open>int\<close>
  (32 bits) and \<open>ValueError\<close> for any other that is no code point.
\<close>

fun Codepoint_init :: "(pystr \<Rightarrow> pychar option) \<Rightarrow> json \<Rightarrow> error + node" where
  "Codepoint_init lookup (JInt i) =
     (if i < - 2147483648 \<or> 2147483647 < i then Inl OverflowError
      else if 0 \<le> i then bind_err (py_chr (nat i)) (\<lambda>s. Inr (Codepoint (hd s)))
      else Inl (ValueError ''chr() arg not in range(0x110000)''))"
| "Codepoint_init lookup (JStr cp) =
     (if length cp = 1 then Inr (Codepoint (hd cp))
      else (case lookup cp of
              Some c \<Rightarrow> Inr (Codepoint c)
            | None \<Rightarrow> Inl (KeyError cp)))"
| "Codepoint_init lookup v = Inl (AttributeError ''not an int, chr, unicode name'')"

section \<open>The guard parser (c2e_codec.py)\<close>

text \<open>The character class \<open>[0-9a-fA-F]\<close> and \<open>int(h, 16)\<close> on a string of such digits.\<close>

definition is_hex :: "pychar \<Rightarrow> bool" where
  "is_hex c = ((48 \<le> c \<and> c \<le> 57) \<or> (97 \<le> c \<and> c \<le> 102) \<or> (65 \<le> c \<and> c \<le> 70))"

definition hex_val :: "pychar \<Rightarrow> nat" where
  "hex_val c = (if c \<le> 57 then c - 48 else if 97 \<le> c then c - 87 else c - 55)"

definition int16 :: "pystr \<Rightarrow> nat" where
  "int16 h = foldl (\<lambda>a d. 16 * a + hex_val d) 0 h"

text \<open>
  \<open>$\<close> without \<open>re.MULTILINE\<close> holds at the end of the text and just before a newline
  that ends the text.
\<close>

definition at_dollar :: "pystr \<Rightarrow> bool" where
  "at_dollar rest = (rest = [] \<or> rest = [10])"

text \<open>\<open>[0-9a-fA-F]{k}\<close> at the start of \<open>s\<close>.\<close>

definition hex_run :: "nat \<Rightarrow> pystr \<Rightarrow> bool" where
  "hex_run k s = (k \<le> length s \<and> list_all is_hex (take k s))"

text \<open>\<open>re.match(r'^.$', s, re.DOTALL)\<close>: with \<open>DOTALL\<close> the dot takes any character.\<close>

definition single_char_regex_match :: "pystr \<Rightarrow> bool" where
  "single_char_regex_match s = (case s of [] \<Rightarrow> False | c # rest \<Rightarrow> at_dollar rest)"

text \<open>
  \<open>re.match(r'^(?:u|U)\+([0-9a-fA-F]{6}|[0-9a-fA-F]{4})$', s)\<close>: group 1 of the match.
  The alternative of six digits is tried first.
\<close>

definition unicode_form_regex_match :: "pystr \<Rightarrow> pystr option" where
  "unicode_form_regex_match s =
     (case s of
        u # p # rest \<Rightarrow>
          if (u = 117 \<or> u = 85) \<and> p = 43 then
            (if hex_run 6 rest \<and> at_dollar (drop 6 rest) then Some (take 6 rest)
             else if hex_run 4 rest \<and> at_dollar (drop 4 rest) then Some (take 4 rest)
             else None)
          else None
      | _ \<Rightarrow> None)"

text \<open>
  One operand \<open>((?:u|U)\+(?:[0-9a-fA-F]{6}|[0-9a-fA-F]{4})|.)\<close> of the range pattern: the
  ways it can match at the start of \<open>s\<close>, in the order the regex engine tries them, each
  with the text matched and the text left.
\<close>

definition escape_alt :: "nat \<Rightarrow> pystr \<Rightarrow> (pystr \<times> pystr) list" where
  "escape_alt k s =
     (case s of
        u # p # rest \<Rightarrow>
          if (u = 117 \<or> u = 85) \<and> p = 43 \<and> hex_run k rest
          then [(take (k + 2) s, drop (k + 2) s)] else []
      | _ \<Rightarrow> [])"

definition operand_alts :: "pystr \<Rightarrow> (pystr \<times> pystr) list" where
  "operand_alts s =
     escape_alt 6 s @ escape_alt 4 s @ (case s of [] \<Rightarrow> [] | c # rest \<Rightarrow> [([c], rest)])"

text \<open>A literal character \<open>c\<close> of the pattern at the start of \<open>s\<close>: the text left.\<close>

definition lit :: "pychar \<Rightarrow> pystr \<Rightarrow> pystr list" where
  "lit c s = (case s of [] \<Rightarrow> [] | d # rest \<Rightarrow> if d = c then [rest] else [])"

text \<open>An operand followed by the literal character \<open>d\<close>: the operand and the text left.\<close>

definition operand_then :: "pychar \<Rightarrow> pystr \<Rightarrow> (pystr \<times> pystr) list" where
  "operand_then d s = [(g, r2). (g, r1) \<leftarrow> operand_alts s, r2 \<leftarrow> lit d r1]"

text \<open>
  \<open>re.match(_range_regex, s, re.DOTALL)\<close>: groups 1 and 2 of the first match the
  backtracking search finds.  \<open>re.match\<close> anchors the pattern at the start of the text;
  the pattern has no \<open>$\<close>, so the text may go on after the closing parenthesis.
\<close>

definition range_regex_match :: "pystr \<Rightarrow> (pystr \<times> pystr) option" where
  "range_regex_match s =
     (case [(g1, g2).
              r0 \<leftarrow> lit 40 s, (g1, r2) \<leftarrow> operand_then 45 r0, (g2, r4) \<leftarrow> operand_then 41 r2] of
        [] \<Rightarrow> None
      | m # _ \<Rightarrow> Some m)"

text \<open>
  The operand of a range after lines 60 to 66: a hex escape is replaced by its character.
\<close>

definition range_operand :: "pystr \<Rightarrow> error + pystr" where
  "range_operand g =
     (case unicode_form_regex_match g of
        Some h \<Rightarrow> py_chr (int16 h)
      | None \<Rightarrow> Inr g)"

text \<open>
  \<open>parseGuard\<close>.  The function has no \<open>return\<close> after the third pattern: for a text that
  matches none of them it returns \<open>None\<close>, here \<open>Inr None\<close>.
\<close>

definition parseGuard :: "(pystr \<Rightarrow> pychar option) \<Rightarrow> pystr \<Rightarrow> error + node option" where
  "parseGuard lookup guard =
     (if single_char_regex_match guard then
        bind_err (Codepoint_init lookup (JStr guard)) (\<lambda>cp.
        Inr (Some (BinOp OPS_eq Candidate cp)))
      else case unicode_form_regex_match guard of
        Some h \<Rightarrow>
          bind_err (py_chr (int16 h)) (\<lambda>c.
          bind_err (Codepoint_init lookup (JStr c)) (\<lambda>cp.
          Inr (Some (BinOp OPS_eq Candidate cp))))
      | None \<Rightarrow>
         (case range_regex_match guard of
            Some (g1, g2) \<Rightarrow>
              bind_err (range_operand g1) (\<lambda>min.
              bind_err (range_operand g2) (\<lambda>max.
              if \<not> str_le min max then
                Inl (AssertionError ''the codepoint on the left of a range must be less-than-or-equal-to the codepoint on the right'')
              else
                bind_err (Codepoint_init lookup (JStr min)) (\<lambda>cp1.
                bind_err (Codepoint_init lookup (JStr max)) (\<lambda>cp2.
                Inr (Some (BinOp OPS_land (BinOp OPS_gte Candidate cp1)
                                          (BinOp OPS_lte Candidate cp2)))))))
          | None \<Rightarrow> Inr None))"

section \<open>The emitter parser (c2e_codec.py)\<close>

definition builtin_emitters :: "pystr list" where
  "builtin_emitters = [ascii ''DEC'', ascii ''HEX'', ascii ''NOP'', ascii ''IDENTITY'']"

definition codec_keywords :: "pystr list" where
  "codec_keywords = [ascii ''TARGET'', ascii ''RULES'', ascii ''DEFAULT-EMITTER'']"

text \<open>
  A codec document is the \<open>dict\<close> read from a \<open>.c2e\<close> file: its items in order.  The keys
  of a \<open>dict\<close> are distinct; \<open>map_of\<close> is the subscript \<open>codec[key]\<close>.
\<close>

type_synonym document = "(pystr \<times> json) list"

definition subscript :: "document \<Rightarrow> pystr \<Rightarrow> error + json" where
  "subscript d key = (case map_of d key of Some v \<Rightarrow> Inr v | None \<Rightarrow> Inl (KeyError key))"

text \<open>Lines 42 to 44: the keys of the document that are not keywords, in order.\<close>

definition userdefined_of :: "document \<Rightarrow> pystr list" where
  "userdefined_of codec = filter (\<lambda>emitter. emitter \<notin> set codec_keywords) (map fst codec)"

text \<open>
  \<open>em in self._userdefined_emitters\<close>: the list holds strings only, so a value in it is
  a string; the result is that string, the key of \<open>self.codec[em]\<close>, or \<open>None\<close> when
  \<open>em\<close> is not in the list.
\<close>

fun userdefined_name :: "document \<Rightarrow> json \<Rightarrow> pystr option" where
  "userdefined_name codec (JStr em) =
     (if em \<in> set (userdefined_of codec) then Some em else None)"
| "userdefined_name codec v = None"

text \<open>\<open>Codec.Builtin(name)\<close>: the \<open>builtin\<close> setter with \<open>isBuiltin\<close> of \<open>Codec.Builtin\<close>.\<close>

fun Builtin_init :: "json \<Rightarrow> error + node" where
  "Builtin_init (JStr name) =
     (if name \<in> set builtin_emitters then Inr (Builtin name)
      else Inl (ValueError ''That is not a builtin''))"
| "Builtin_init v = Inl (AttributeError ''Builtin emitter name must be a string'')"

text \<open>\<open>EmitterList(*emitters)\<close>: the \<open>emitters\<close> setter.\<close>

definition EmitterList_init :: "node list \<Rightarrow> error + node" where
  "EmitterList_init emitters =
     (if list_all isEmitter emitters then Inr (EmitterList emitters)
      else Inl (AttributeError ''EmitterList can only contain Emitters''))"

text \<open>A list comprehension \<open>[f(x) for x in xs]\<close> where \<open>f\<close> may raise: the first exception ends it.\<close>

fun map_err :: "('a \<Rightarrow> error + 'b) \<Rightarrow> 'a list \<Rightarrow> error + 'b list" where
  "map_err f [] = Inr []"
| "map_err f (x # xs) = bind_err (f x) (\<lambda>y. bind_err (map_err f xs) (\<lambda>ys. Inr (y # ys)))"

lemma map_err_cong [fundef_cong]:
  "xs = ys \<Longrightarrow> (\<And>x. x \<in> set ys \<Longrightarrow> f x = g x) \<Longrightarrow> map_err f xs = map_err g ys"
  by (induction ys arbitrary: xs) auto

text \<open>
  \<open>parseEmitter\<close>.  The function calls itself for every element of a user-defined
  emitter and keeps no record of the names it is resolving.  The first argument is the
  number of nested calls the interpreter still allows: a call beyond it raises
  \<open>RecursionError\<close>.
\<close>

fun parseEmitter :: "nat \<Rightarrow> document \<Rightarrow> json \<Rightarrow> error + node" where
  "parseEmitter 0 codec emitter = Inl RecursionError"
| "parseEmitter (Suc depth) codec (JObj d) =
     (case map_of d (ascii ''emitter'') of
        Some em \<Rightarrow>
          (case userdefined_name codec em of
             Some name \<Rightarrow>
               bind_err (subscript codec name) (\<lambda>defn.
               bind_err (py_iter defn) (\<lambda>xs.
               bind_err (map_err (parseEmitter depth codec) xs) (\<lambda>emitter_list.
               EmitterList_init emitter_list)))
           | None \<Rightarrow> Builtin_init em)
      | None \<Rightarrow> Inl (ValueError ''the key \"emitter\" is not in dict''))"
| "parseEmitter (Suc depth) codec (JStr s) = Inr (ConstantEmitter s)"
| "parseEmitter (Suc depth) codec v = Inl (ValueError ''that is not an emitter'')"

text \<open>
  \<open>parseRule\<close>: the first item of the rule, or \<open>None\<close> for a rule with no item.  A rule
  that is not a \<open>dict\<close> has no method \<open>items\<close>.
\<close>

definition parseRule ::
  "(pystr \<Rightarrow> pychar option) \<Rightarrow> nat \<Rightarrow> document \<Rightarrow> json \<Rightarrow> error + (node option \<times> node) option" where
  "parseRule lookup depth codec rule =
     (case rule of
        JObj items \<Rightarrow>
          (case items of
             [] \<Rightarrow> Inr None
           | (guard, emitter) # _ \<Rightarrow>
               bind_err (parseGuard lookup guard) (\<lambda>g.
               bind_err (parseEmitter depth codec emitter) (\<lambda>e.
               Inr (Some (g, e)))))
      | _ \<Rightarrow> Inl (AttributeError ''object has no attribute items''))"

section \<open>The rule chain (c2e_codec.py, lines 96 to 105)\<close>

text \<open>
  An \<open>If\<close> object while the loop assigns its fields.  \<open>If()\<close> has the condition
  \<open>Bool.false\<close> and both branches \<open>Nop()\<close>.
\<close>

record If_obj =
  condition :: node
  iftrue :: node
  iffalse :: node

definition If_new :: If_obj where
  "If_new = \<lparr>condition = Bool False, iftrue = Nop, iffalse = Nop\<rparr>"

text \<open>The setters of \<open>If\<close>.  The value assigned may be \<open>None\<close>, which no setter accepts.\<close>

definition set_condition :: "If_obj \<Rightarrow> node option \<Rightarrow> error + If_obj" where
  "set_condition obj cond =
     (case cond of
        Some c \<Rightarrow>
          if isGuard c then Inr (obj\<lparr>condition := c\<rparr>)
          else Inl (AttributeError ''condition must be instance of AstNode or enum in Bool'')
      | None \<Rightarrow> Inl (AttributeError ''condition must be instance of AstNode or enum in Bool''))"

definition set_iftrue :: "If_obj \<Rightarrow> node option \<Rightarrow> error + If_obj" where
  "set_iftrue obj ift =
     (case ift of
        Some n \<Rightarrow> Inr (obj\<lparr>iftrue := n\<rparr>)
      | None \<Rightarrow> Inl (AttributeError ''iftrue must be instance of AstNode''))"

definition set_iffalse :: "If_obj \<Rightarrow> node option \<Rightarrow> error + If_obj" where
  "set_iffalse obj iff_value =
     (case iff_value of
        Some n \<Rightarrow> Inr (obj\<lparr>iffalse := n\<rparr>)
      | None \<Rightarrow> Inl (AttributeError ''iffalse must be instance of AstNode or enum in Bool''))"

text \<open>
  The loop keeps two references into one tree: \<open>self._root\<close> and \<open>current\<close>, the \<open>If\<close> at
  the end of the \<open>iffalse\<close> chain.  The state of the loop is \<open>current\<close> together with the
  \<open>If\<close> objects above it (\<open>parents\<close>), the nearest first: the \<open>iffalse\<close> of each of
  them is the object below it.  \<open>plug\<close> reads the tree from the root once the objects are complete.
\<close>

definition node_of :: "If_obj \<Rightarrow> node" where
  "node_of obj = IfNode (condition obj) (iftrue obj) (iffalse obj)"

fun plug :: "If_obj list \<Rightarrow> node \<Rightarrow> node" where
  "plug [] below = below"
| "plug (parent # parents) below = plug parents (IfNode (condition parent) (iftrue parent) below)"

text \<open>Unpacking \<open>a, b = v\<close> where \<open>v\<close> may be \<open>None\<close>.\<close>

definition unpack2 :: "('a \<times> 'b) option \<Rightarrow> error + ('a \<times> 'b)" where
  "unpack2 v = (case v of Some p \<Rightarrow> Inr p | None \<Rightarrow> Inl (TypeError ''cannot unpack non-iterable NoneType object''))"

text \<open>
  Lines 98 to 101, one iteration per rule: assign \<open>condition\<close> and \<open>iftrue\<close> of \<open>current\<close>,
  make a new \<open>If\<close> its \<open>iffalse\<close>, and move \<open>current\<close> to the new object.
\<close>

fun build_loop ::
  "(pystr \<Rightarrow> pychar option) \<Rightarrow> nat \<Rightarrow> document \<Rightarrow> If_obj list \<Rightarrow> If_obj \<Rightarrow> json list
     \<Rightarrow> error + (If_obj list \<times> If_obj)" where
  "build_loop lookup depth codec parents current [] = Inr (parents, current)"
| "build_loop lookup depth codec parents current (rule # rules) =
     bind_err (parseRule lookup depth codec rule) (\<lambda>r.
     bind_err (unpack2 r) (\<lambda>(g, e).
     bind_err (set_condition current g) (\<lambda>current.
     bind_err (set_iftrue current (Some e)) (\<lambda>current.
     bind_err (set_iffalse current (Some (node_of If_new))) (\<lambda>current.
     build_loop lookup depth codec (current # parents) If_new rules)))))"

section \<open>Codec and Encoder (c2e_codec.py)\<close>

record Codec =
  codec :: document
  default_emitter :: json
  rules :: json
  target :: json
  userdefined_emitters :: "pystr list"
  root :: node

text \<open>
  \<open>Codec(codec)\<close>: the \<open>codec\<close> setter.  An absent \<open>DEFAULT-EMITTER\<close> is \<open>None\<close>, and
  line 104 tests the truth value of the default emitter.
\<close>

definition Codec_init ::
  "(pystr \<Rightarrow> pychar option) \<Rightarrow> nat \<Rightarrow> document \<Rightarrow> error + Codec" where
  "Codec_init lookup depth doc =
     (let dflt = (case map_of doc (ascii ''DEFAULT-EMITTER'') of Some v \<Rightarrow> v | None \<Rightarrow> JNull) in
      bind_err (subscript doc (ascii ''RULES'')) (\<lambda>rs.
      bind_err (subscript doc (ascii ''TARGET'')) (\<lambda>tg.
      bind_err (py_iter rs) (\<lambda>rule_list.
      bind_err (build_loop lookup depth doc [] If_new rule_list) (\<lambda>(parents, current).
      bind_err (set_condition current (Some (Bool True))) (\<lambda>current.
      bind_err (if truthy dflt
                then bind_err (parseEmitter depth doc dflt) (\<lambda>e. set_iftrue current (Some e))
                else Inr current) (\<lambda>current.
      Inr \<lparr>codec = doc, default_emitter = dflt, rules = rs, target = tg,
           userdefined_emitters = userdefined_of doc,
           root = plug parents (node_of current)\<rparr>)))))))"

text \<open>The property \<open>emitters\<close>.\<close>

definition emitters :: "Codec \<Rightarrow> pystr list" where
  "emitters c = builtin_emitters @ userdefined_emitters c"

text \<open>
  \<open>x == y\<close> on the values of a document: \<open>bool\<close> is a subclass of \<open>int\<close> and compares
  by number, lists compare by elements, dicts by keys and values whatever the order.
\<close>

fun py_eq :: "json \<Rightarrow> json \<Rightarrow> bool" where
  "py_eq JNull JNull = True"
| "py_eq (JBool a) (JBool b) = (a = b)"
| "py_eq (JBool a) (JInt j) = ((if a then 1 else 0) = j)"
| "py_eq (JInt i) (JBool b) = (i = (if b then 1 else 0))"
| "py_eq (JInt i) (JInt j) = (i = j)"
| "py_eq (JStr s) (JStr t) = (s = t)"
| "py_eq (JArr xs) (JArr ys) = list_all2 py_eq xs ys"
| "py_eq (JObj a) (JObj b) =
     (length a = length b \<and>
      list_all (\<lambda>kv. case map_of b (fst kv) of None \<Rightarrow> False | Some w \<Rightarrow> py_eq (snd kv) w) a)"
| "py_eq x y = False"

text \<open>\<open>x in xs\<close> for a list \<open>xs\<close>.\<close>

definition py_in :: "json \<Rightarrow> json list \<Rightarrow> bool" where
  "py_in x xs = list_ex (\<lambda>y. py_eq y x) xs"

record Encoder =
  codecs :: "Codec list"
  targets :: "json list"

definition Encoder_init :: Encoder where
  "Encoder_init = \<lparr>codecs = [], targets = []\<rparr>"

text \<open>The argument of \<open>Encoder.add\<close>: an instance of \<open>Codec\<close>, or any other object.\<close>

datatype pyobject = CodecObject Codec | OtherObject

text \<open>
  \<open>Encoder.add\<close>: the exception raised, if any, and the Encoder after the call.
\<close>

fun add :: "Encoder \<Rightarrow> pyobject \<Rightarrow> error option \<times> Encoder" where
  "add enc (CodecObject c) =
     (if \<not> py_in (target c) (targets enc) then
        (None, enc\<lparr>targets := targets enc @ [target c], codecs := codecs enc @ [c]\<rparr>)
      else
        (Some (ValueError ''a codec with target={} already exists in this encoder''), enc))"
| "add enc OtherObject = (Some (AttributeError []), enc)"

section \<open>The formatter (codec2ast.py)\<close>

text \<open>
  An \<open>AstFormatter\<close>: the dictionary \<open>_format_strings\<close>, which \<open>__setattr__\<close> fills, and
  \<open>escape_func\<close>, a function from a character to a string.
\<close>

record AstFormatter =
  format_strings :: "pystr \<rightharpoonup> pystr"
  escape_func :: "pychar \<Rightarrow> pystr"

text \<open>\<open>AstFormatter()\<close>: no format string, and the escape function that doubles a backslash.\<close>

definition AstFormatter_init :: AstFormatter where
  "AstFormatter_init =
     \<lparr>format_strings = Map.empty, escape_func = (\<lambda>c. if c \<noteq> 92 then [c] else [92, 92])\<rparr>"

text \<open>\<open>op.name\<close> of a member of \<open>BinOp.OPS\<close>, and \<open>node.__class__.__name__\<close>.\<close>

fun OPS_name :: "OPS \<Rightarrow> pystr" where
  "OPS_name OPS_land = ascii ''land''"
| "OPS_name OPS_lor = ascii ''lor''"
| "OPS_name OPS_eq = ascii ''eq''"
| "OPS_name OPS_lt = ascii ''lt''"
| "OPS_name OPS_gt = ascii ''gt''"
| "OPS_name OPS_lte = ascii ''lte''"
| "OPS_name OPS_gte = ascii ''gte''"

fun class_name :: "node \<Rightarrow> pystr" where
  "class_name (Codepoint _) = ascii ''Codepoint''"
| "class_name Candidate = ascii ''Candidate''"
| "class_name (BinOp _ _ _) = ascii ''BinOp''"
| "class_name (Bool _) = ascii ''Bool''"
| "class_name Nop = ascii ''Nop''"
| "class_name (Builtin _) = ascii ''Builtin''"
| "class_name (ConstantEmitter _) = ascii ''ConstantEmitter''"
| "class_name (EmitterList _) = ascii ''EmitterList''"
| "class_name (IfNode _ _ _) = ascii ''If''"

text \<open>\<open>dict.get(key, '')\<close>.\<close>

definition get_default :: "(pystr \<rightharpoonup> pystr) \<Rightarrow> pystr \<Rightarrow> pystr" where
  "get_default d key = (case d key of Some v \<Rightarrow> v | None \<Rightarrow> [])"

text \<open>
  \<open>getFstring\<close>: \<open>get\<close> with the default \<open>''\<close> for a \<open>BinOp\<close> and a \<open>Bool\<close>, a subscript,
  which raises \<open>KeyError\<close>, for every other node.
\<close>

fun getFstring :: "AstFormatter \<Rightarrow> node \<Rightarrow> error + pystr" where
  "getFstring f (BinOp operation operand1 operand2) =
     Inr (get_default (format_strings f) (OPS_name operation))"
| "getFstring f (Bool v) =
     Inr (get_default (format_strings f) (if v then ascii ''true'' else ascii ''false''))"
| "getFstring f node =
     (case format_strings f (class_name node) of
        Some v \<Rightarrow> Inr v
      | None \<Rightarrow> Inl (KeyError (class_name node)))"

text \<open>
  \<open>str.format\<close> belongs to Python and not to the program: it is the parameter \<open>fmt\<close>, which
  takes the format string, the positional arguments and the keyword arguments, and gives
  the text or the exception.  An argument is a string or an integer.
\<close>

type_synonym str_format = "pystr \<Rightarrow> json list \<Rightarrow> (string \<times> json) list \<Rightarrow> error + pystr"

text \<open>
  \<open>NodeVisitor.visit\<close> with the methods \<open>visit_If\<close> to \<open>visit_EmitterList\<close> it
  dispatches to.  Each method asks for its format string first and visits the children
  when it builds the arguments of \<open>format\<close>, in the order they are written.
\<close>

fun visit :: "str_format \<Rightarrow> AstFormatter \<Rightarrow> node \<Rightarrow> error + pystr" where
  "visit fmt f (IfNode c t e) =
     bind_err (getFstring f (IfNode c t e)) (\<lambda>format_string.
     bind_err (visit fmt f c) (\<lambda>sc.
     bind_err (visit fmt f t) (\<lambda>st.
     bind_err (visit fmt f e) (\<lambda>se.
     fmt format_string []
       [(''condition'', JStr sc), (''iftrue'', JStr st), (''iffalse'', JStr se)]))))"
| "visit fmt f (BinOp operation a b) =
     bind_err (getFstring f (BinOp operation a b)) (\<lambda>format_string.
     bind_err (visit fmt f a) (\<lambda>s1.
     bind_err (visit fmt f b) (\<lambda>s2.
     fmt format_string [] [(''operand1'', JStr s1), (''operand2'', JStr s2)])))"
| "visit fmt f Candidate = getFstring f Candidate"
| "visit fmt f (Codepoint cp) =
     bind_err (getFstring f (Codepoint cp)) (\<lambda>format_string.
     fmt format_string [] [(''codepoint'', JInt (int cp))])"
| "visit fmt f (Bool v) = getFstring f (Bool v)"
| "visit fmt f Nop = getFstring f Nop"
| "visit fmt f (Builtin name) =
     bind_err (getFstring f (Builtin name)) (\<lambda>format_string.
     fmt format_string [] [(''builtin'', JStr name)])"
| "visit fmt f (ConstantEmitter s) =
     bind_err (getFstring f (ConstantEmitter s)) (\<lambda>format_string.
     fmt format_string [JStr (concat (map (escape_func f) s))] [])"
| "visit fmt f (EmitterList es) =
     bind_err (map_err (visit fmt f) es) (\<lambda>s. Inr (concat s))"

text \<open>\<open>AstFormatter.format\<close>.\<close>

definition format :: "str_format \<Rightarrow> AstFormatter \<Rightarrow> node \<Rightarrow> error + pystr" where
  "format fmt f node = visit fmt f node"

section \<open>Documents used as concrete inputs\<close>

text \<open>
  \<open>{"TARGET": "html", "RULES": []}\<close> and the \<open>Codec\<close> it compiles to; a name table that
  knows no character name.
\<close>

definition no_names :: "pystr \<Rightarrow> pychar option" where
  "no_names s = None"

definition html_doc :: document where
  "html_doc = [(ascii ''TARGET'', JStr (ascii ''html'')), (ascii ''RULES'', JArr [])]"

definition html_codec :: Codec where
  "html_codec =
     \<lparr>codec = html_doc, default_emitter = JNull, rules = JArr [],
      target = JStr (ascii ''html''), userdefined_emitters = [],
      root = IfNode (Bool True) Nop Nop\<rparr>"

lemma html_codec_compiled: "Codec_init no_names 10 html_doc = Inr html_codec"
  by (simp add: Codec_init_def html_doc_def html_codec_def subscript_def ascii_def If_new_def
      set_condition_def node_of_def userdefined_of_def codec_keywords_def)

section \<open>The Encoder rejects a second codec for a target\<close>

text \<open>The Encoders a program can hold: a new one, and one after any call of \<open>add\<close>.\<close>

inductive reachable :: "Encoder \<Rightarrow> bool" where
  reachable_init: "reachable Encoder_init"
| reachable_add: "reachable enc \<Longrightarrow> reachable (snd (add enc obj))"

lemma py_eq_JStr: "py_eq y (JStr t) = (y = JStr t)"
  by (cases y) auto

lemma py_in_JStr: "py_in (JStr t) xs = (JStr t \<in> set xs)"
  by (auto simp: py_in_def list_ex_iff py_eq_JStr)

lemma reachable_targets: "reachable enc \<Longrightarrow> targets enc = map target (codecs enc)"
proof (induction rule: reachable.induct)
  case reachable_init
  show ?case by (simp add: Encoder_init_def)
next
  case (reachable_add enc obj)
  then show ?case by (cases obj) auto
qed

lemma reachable_once:
  "reachable enc \<Longrightarrow> length (filter (\<lambda>x. x = JStr t) (targets enc)) \<le> 1"
proof (induction rule: reachable.induct)
  case reachable_init
  show ?case by (simp add: Encoder_init_def)
next
  case (reachable_add enc obj)
  show ?case
  proof (cases obj)
    case OtherObject
    with reachable_add.IH show ?thesis by simp
  next
    case (CodecObject c)
    show ?thesis
    proof (cases "py_in (target c) (targets enc)")
      case True
      with CodecObject reachable_add.IH show ?thesis by simp
    next
      case False
      have "length (filter (\<lambda>x. x = JStr t) (targets enc @ [target c])) \<le> 1"
      proof (cases "target c = JStr t")
        case True
        with False have "JStr t \<notin> set (targets enc)" by (simp add: py_in_JStr)
        then have "filter (\<lambda>x. x = JStr t) (targets enc) = []"
          by (auto simp: filter_empty_conv)
        then show ?thesis by simp
      next
        case False
        with reachable_add.IH show ?thesis by simp
      qed
      with False CodecObject show ?thesis by simp
    qed
  qed
qed

text \<open>
  Claim C6.  Let an Encoder be one a program can hold and let a codec have a target
  name (a string) equal to the target of a codec added before.  Then \<open>add\<close> raises the
  \<open>ValueError\<close> of line 142 and returns the Encoder as it was: the lists of codecs and of
  targets are the same, in the same order, and exactly one codec of the Encoder has that
  target.
\<close>

theorem add_duplicate_target:
  assumes "reachable enc" and "target c = JStr name" and "py_in (target c) (targets enc)"
  shows "add enc (CodecObject c) =
           (Some (ValueError ''a codec with target={} already exists in this encoder''), enc) \<and>
         length (filter (\<lambda>d. target d = JStr name) (codecs enc)) = 1"
proof -
  from assms(1) have inv: "targets enc = map target (codecs enc)"
    by (rule reachable_targets)
  from assms(1) have le: "length (filter (\<lambda>x. x = JStr name) (targets enc)) \<le> 1"
    by (rule reachable_once)
  from assms(2,3) have "JStr name \<in> set (targets enc)" by (simp add: py_in_JStr)
  then have "filter (\<lambda>x. x = JStr name) (targets enc) \<noteq> []"
    by (auto simp: filter_empty_conv)
  with le have "length (filter (\<lambda>x. x = JStr name) (targets enc)) = 1"
    by (cases "filter (\<lambda>x. x = JStr name) (targets enc)") auto
  moreover have "filter (\<lambda>x. x = JStr name) (map target (codecs enc)) =
                 map target (filter (\<lambda>d. target d = JStr name) (codecs enc))"
    by (simp add: filter_map comp_def)
  ultimately have "length (filter (\<lambda>d. target d = JStr name) (codecs enc)) = 1"
    using inv by (metis length_map)
  with assms(3) show ?thesis by simp
qed

text \<open>The theorem at the Encoder that holds \<open>html_codec\<close>, adding \<open>html_codec\<close> again.\<close>

theorem add_duplicate_target_witness:
  "reachable (snd (add Encoder_init (CodecObject html_codec))) \<and>
   target html_codec = JStr (ascii ''html'') \<and>
   py_in (target html_codec) (targets (snd (add Encoder_init (CodecObject html_codec)))) \<and>
   add (snd (add Encoder_init (CodecObject html_codec))) (CodecObject html_codec) =
     (Some (ValueError ''a codec with target={} already exists in this encoder''),
      snd (add Encoder_init (CodecObject html_codec))) \<and>
   length (filter (\<lambda>d. target d = JStr (ascii ''html''))
             (codecs (snd (add Encoder_init (CodecObject html_codec))))) = 1"
proof -
  have r: "reachable (snd (add Encoder_init (CodecObject html_codec)))"
    by (rule reachable_add [OF reachable_init])
  have t: "target html_codec = JStr (ascii ''html'')"
    by (simp add: html_codec_def)
  have i: "py_in (target html_codec) (targets (snd (add Encoder_init (CodecObject html_codec))))"
    by (simp add: html_codec_def Encoder_init_def py_in_def)
  from r t i add_duplicate_target [OF r t i] show ?thesis by blast
qed

section \<open>Exceptions through \<open>bind_err\<close> and \<open>map_err\<close>\<close>

lemma bind_err_eq_Inr: "bind_err m f = Inr y \<longleftrightarrow> (\<exists>x. m = Inr x \<and> f x = Inr y)"
  by (cases m) auto

definition is_error :: "error + 'a \<Rightarrow> bool" where
  "is_error r = (case r of Inl e \<Rightarrow> True | Inr x \<Rightarrow> False)"

lemma is_error_simps [simp]: "is_error (Inl e)" "\<not> is_error (Inr x)"
  by (simp_all add: is_error_def)

lemma is_error_iff: "is_error r \<longleftrightarrow> (\<exists>e. r = Inl e)"
  by (cases r) auto

lemma is_error_bind:
  "is_error (bind_err m f) \<longleftrightarrow> is_error m \<or> (\<exists>x. m = Inr x \<and> is_error (f x))"
  by (cases m) auto

lemma is_error_map_err: "x \<in> set xs \<Longrightarrow> is_error (f x) \<Longrightarrow> is_error (map_err f xs)"
proof (induction xs)
  case Nil
  then show ?case by simp
next
  case (Cons y ys)
  show ?case
  proof (cases "f y")
    case (Inl e)
    then show ?thesis by simp
  next
    case (Inr v)
    with Cons have "is_error (map_err f ys)" by auto
    with Inr show ?thesis by (simp add: is_error_bind)
  qed
qed

section \<open>The emitter names a Codec exposes\<close>

text \<open>The names of the \<open>Builtin\<close> nodes of a tree: the builtin emitters the tree uses.\<close>

fun builtin_names :: "node \<Rightarrow> pystr list" where
  "builtin_names (Builtin name) = [name]"
| "builtin_names (BinOp operation a b) = builtin_names a @ builtin_names b"
| "builtin_names (EmitterList es) = concat (map builtin_names es)"
| "builtin_names (IfNode c t e) = builtin_names c @ builtin_names t @ builtin_names e"
| "builtin_names n = []"

text \<open>
  Claim C5 says that \<open>emitters\<close> holds the builtin emitters the rules and the default use,
  and the user-defined names.  The codec of \<open>html_doc\<close> has no rule and no default; its
  tree uses no builtin and it declares no emitter, and \<open>DEC\<close> is in \<open>emitters\<close>.
\<close>

theorem emitters_counterexample:
  "Codec_init no_names 10 html_doc = Inr html_codec \<and>
   ascii ''DEC'' \<in> set (emitters html_codec) \<and>
   ascii ''DEC'' \<notin> set (builtin_names (root html_codec)) \<union> set (userdefined_emitters html_codec)"
  by (simp add: html_codec_compiled) (simp add: html_codec_def emitters_def builtin_emitters_def)

text \<open>
  Claim C5, amended.  For every codec that compiles, \<open>emitters\<close> is the list of the four
  builtin names \<open>DEC\<close>, \<open>HEX\<close>, \<open>NOP\<close>, \<open>IDENTITY\<close>, whether a rule or the default uses them
  or not, followed by the keys of the document that are not \<open>TARGET\<close>, \<open>RULES\<close> or
  \<open>DEFAULT-EMITTER\<close>, in the order of the document.
\<close>

theorem emitters_all_builtins:
  assumes "Codec_init lookup depth doc = Inr c"
  shows "emitters c =
           [ascii ''DEC'', ascii ''HEX'', ascii ''NOP'', ascii ''IDENTITY''] @
           filter (\<lambda>key. key \<notin> {ascii ''TARGET'', ascii ''RULES'', ascii ''DEFAULT-EMITTER''})
             (map fst doc)"
  using assms
  by (auto simp: Codec_init_def Let_def bind_err_eq_Inr emitters_def builtin_emitters_def
      userdefined_of_def codec_keywords_def split: prod.splits)

theorem emitters_all_builtins_witness:
  "Codec_init no_names 10 html_doc = Inr html_codec \<and>
   emitters html_codec =
     [ascii ''DEC'', ascii ''HEX'', ascii ''NOP'', ascii ''IDENTITY''] @
     filter (\<lambda>key. key \<notin> {ascii ''TARGET'', ascii ''RULES'', ascii ''DEFAULT-EMITTER''})
       (map fst html_doc)"
  using emitters_all_builtins [OF html_codec_compiled] html_codec_compiled by simp

section \<open>Rendering: missing format strings\<close>

text \<open>
  The keys a render of a tree looks up in \<open>_format_strings\<close>: \<open>template_keys\<close> lists all of
  them, \<open>strict_keys\<close> those looked up by subscript (the class names of the nodes that are
  neither \<open>BinOp\<close> nor \<open>Bool\<close>; \<open>visit_EmitterList\<close> looks up no key).  \<open>constant_chars\<close>
  lists the characters \<open>escape_func\<close> is called on.
\<close>

fun strict_keys :: "node \<Rightarrow> pystr list" where
  "strict_keys (BinOp operation a b) = strict_keys a @ strict_keys b"
| "strict_keys (Bool v) = []"
| "strict_keys (EmitterList es) = concat (map strict_keys es)"
| "strict_keys (IfNode c t e) = ascii ''If'' # strict_keys c @ strict_keys t @ strict_keys e"
| "strict_keys n = [class_name n]"

fun template_keys :: "node \<Rightarrow> pystr list" where
  "template_keys (BinOp operation a b) = OPS_name operation # template_keys a @ template_keys b"
| "template_keys (Bool v) = [if v then ascii ''true'' else ascii ''false'']"
| "template_keys (EmitterList es) = concat (map template_keys es)"
| "template_keys (IfNode c t e) = ascii ''If'' # template_keys c @ template_keys t @ template_keys e"
| "template_keys n = [class_name n]"

fun constant_chars :: "node \<Rightarrow> pychar list" where
  "constant_chars (ConstantEmitter s) = s"
| "constant_chars (BinOp operation a b) = constant_chars a @ constant_chars b"
| "constant_chars (EmitterList es) = concat (map constant_chars es)"
| "constant_chars (IfNode c t e) = constant_chars c @ constant_chars t @ constant_chars e"
| "constant_chars n = []"

text \<open>A stand-in for \<open>str.format\<close> in concrete renders: it returns the format string as it is.\<close>

definition fmt_verbatim :: str_format where
  "fmt_verbatim format_string args kwargs = Inr format_string"

lemma visit_missing_key:
  "key \<in> set (strict_keys n) \<Longrightarrow> format_strings f key = None \<Longrightarrow> is_error (visit fmt f n)"
proof (induction n)
  case (EmitterList es)
  then obtain x where "x \<in> set es" "key \<in> set (strict_keys x)" by auto
  with EmitterList have "is_error (visit fmt f x)" by blast
  with \<open>x \<in> set es\<close> have "is_error (map_err (visit fmt f) es)" by (rule is_error_map_err)
  then show ?case by (simp add: is_error_bind)
next
  case (IfNode c t e)
  then show ?case
    by (cases "visit fmt f c"; cases "visit fmt f t"; cases "visit fmt f e")
       (auto simp: is_error_bind split: option.splits)
next
  case (BinOp operation a b)
  then show ?case
    by (cases "visit fmt f a"; cases "visit fmt f b") (auto simp: is_error_bind)
qed (auto simp: is_error_bind split: option.splits)

text \<open>
  Claim C4 says that a render fails for every missing dispatch key, those of \<open>Bool\<close>
  included.  A new formatter has no format string at all, and it renders \<open>Bool.true\<close> as
  the empty string.
\<close>

theorem format_missing_key_counterexample:
  "format_strings AstFormatter_init (ascii ''true'') = None \<and>
   format fmt_verbatim AstFormatter_init (Bool True) = Inr []"
  by (simp add: AstFormatter_init_def format_def get_default_def)

text \<open>
  Claim C4, amended.  A render fails whenever \<open>_format_strings\<close> has no entry for the
  class name of an \<open>If\<close>, \<open>Candidate\<close>, \<open>Codepoint\<close>, \<open>Nop\<close>, \<open>Builtin\<close> or
  \<open>ConstantEmitter\<close> node of the tree.  A missing operator key of a \<open>BinOp\<close> or value key
  of a \<open>Bool\<close> is no error: \<open>getFstring\<close> takes the empty string for it.
\<close>

theorem format_missing_key:
  "(key \<in> set (strict_keys n) \<and> format_strings f key = None \<longrightarrow> (\<exists>e. format fmt f n = Inl e)) \<and>
   getFstring f (BinOp operation a b) =
     Inr (case format_strings f (OPS_name operation) of Some t \<Rightarrow> t | None \<Rightarrow> []) \<and>
   format fmt f (Bool v) =
     Inr (case format_strings f (if v then ascii ''true'' else ascii ''false'') of
            Some t \<Rightarrow> t | None \<Rightarrow> [])"
  using visit_missing_key [of key n f fmt]
  by (simp add: format_def get_default_def is_error_iff)

text \<open>
  The theorem at a formatter that has a format string for \<open>If\<close> and none for \<open>Nop\<close>,
  rendering the tree of a codec without rules.
\<close>

theorem format_missing_key_witness:
  "ascii ''Nop'' \<in> set (strict_keys (IfNode (Bool True) Nop Nop)) \<and>
   format_strings (AstFormatter_init\<lparr>format_strings := [ascii ''If'' \<mapsto> ascii ''{iftrue}'']\<rparr>)
     (ascii ''Nop'') = None \<and>
   (\<exists>e. format fmt_verbatim
          (AstFormatter_init\<lparr>format_strings := [ascii ''If'' \<mapsto> ascii ''{iftrue}'']\<rparr>)
          (IfNode (Bool True) Nop Nop) = Inl e)"
proof -
  let ?f = "AstFormatter_init\<lparr>format_strings := [ascii ''If'' \<mapsto> ascii ''{iftrue}'']\<rparr>"
  have k: "ascii ''Nop'' \<in> set (strict_keys (IfNode (Bool True) Nop Nop))"
    by (simp add: ascii_def)
  have m: "format_strings ?f (ascii ''Nop'') = None"
    by (simp add: ascii_def)
  from k m format_missing_key [of "ascii ''Nop''" "IfNode (Bool True) Nop Nop" ?f fmt_verbatim]
  show ?thesis by blast
qed

section \<open>Rendering is a function of the tree, the format strings and the escape function\<close>

lemma visit_cong_keys:
  "(\<forall>key \<in> set (template_keys n). format_strings f key = format_strings g key) \<Longrightarrow>
   (\<forall>c \<in> set (constant_chars n). escape_func f c = escape_func g c) \<Longrightarrow>
   visit fmt f n = visit fmt g n"
proof (induction n)
  case (EmitterList es)
  have "map_err (visit fmt f) es = map_err (visit fmt g) es"
    using EmitterList by (intro map_err_cong) auto
  then show ?case by simp
next
  case (ConstantEmitter s)
  then have "map (escape_func f) s = map (escape_func g) s" by simp
  with ConstantEmitter show ?case by (simp del: map_eq_conv)
qed (auto simp: get_default_def)

text \<open>
  Claim C9.  The result of a render, text or exception, is determined by the tree, by
  the format strings of the keys the tree has and by the escape function on the
  characters of its constants: two formatters that agree on these render the tree to
  the same result, and so do two renders with the same format strings and the same
  escape function.
\<close>

theorem format_deterministic:
  assumes "list_all (\<lambda>key. format_strings f key = format_strings g key) (template_keys n)"
    and "list_all (\<lambda>c. escape_func f c = escape_func g c) (constant_chars n)"
  shows "format fmt f n = format fmt g n"
  using assms visit_cong_keys [of n f g fmt] by (simp add: format_def list_all_iff)

text \<open>
  The theorem at the tree of a rule \<open><\<close> with the constant emitter \<open>&lt;\<close>, for a formatter
  and the same formatter with one more format string.
\<close>

definition lt_tree :: node where
  "lt_tree =
     IfNode (BinOp OPS_eq Candidate (Codepoint 60)) (ConstantEmitter (ascii ''&lt;''))
       (IfNode (Bool True) Nop Nop)"

definition lt_formatter :: AstFormatter where
  "lt_formatter =
     AstFormatter_init\<lparr>format_strings :=
       [ascii ''If'' \<mapsto> ascii ''if'', ascii ''eq'' \<mapsto> ascii ''=='',
        ascii ''Candidate'' \<mapsto> ascii ''c'', ascii ''Codepoint'' \<mapsto> ascii ''{codepoint}'',
        ascii ''ConstantEmitter'' \<mapsto> ascii ''{}'', ascii ''true'' \<mapsto> ascii ''true'',
        ascii ''Nop'' \<mapsto> ascii ''pass'']\<rparr>"

theorem format_deterministic_witness:
  "list_all (\<lambda>key. format_strings lt_formatter key =
               format_strings (lt_formatter\<lparr>format_strings :=
                 (format_strings lt_formatter)(ascii ''false'' \<mapsto> ascii ''false'')\<rparr>) key)
     (template_keys lt_tree) \<and>
   list_all (\<lambda>c. escape_func lt_formatter c =
               escape_func (lt_formatter\<lparr>format_strings :=
                 (format_strings lt_formatter)(ascii ''false'' \<mapsto> ascii ''false'')\<rparr>) c)
     (constant_chars lt_tree) \<and>
   format fmt_verbatim lt_formatter lt_tree =
     format fmt_verbatim (lt_formatter\<lparr>format_strings :=
       (format_strings lt_formatter)(ascii ''false'' \<mapsto> ascii ''false'')\<rparr>) lt_tree"
proof -
  let ?g = "lt_formatter\<lparr>format_strings :=
              (format_strings lt_formatter)(ascii ''false'' \<mapsto> ascii ''false'')\<rparr>"
  have k: "list_all (\<lambda>key. format_strings lt_formatter key = format_strings ?g key)
             (template_keys lt_tree)"
    by (simp add: lt_tree_def lt_formatter_def ascii_def)
  have c: "list_all (\<lambda>c. escape_func lt_formatter c = escape_func ?g c) (constant_chars lt_tree)"
    by (simp add: lt_tree_def list_all_iff)
  from k c format_deterministic [OF k c, of fmt_verbatim] show ?thesis by blast
qed

section \<open>Guards: what the three patterns accept\<close>

text \<open>
  An operand of a range as the documentation of the guard syntax describes it, with the
  code point it denotes: a literal character, or \<open>U+\<close> (or \<open>u+\<close>) and four or six hex
  digits that give an ordinal \<open>chr\<close> accepts.
\<close>

definition is_operand :: "pystr \<Rightarrow> pychar \<Rightarrow> bool" where
  "is_operand s c =
     (s = [c] \<or>
      (case s of
         u # p # h \<Rightarrow>
           (u = 117 \<or> u = 85) \<and> p = 43 \<and> (length h = 4 \<or> length h = 6) \<and>
           list_all is_hex h \<and> int16 h = c \<and> c < 0x110000
       | _ \<Rightarrow> False))"

lemma lit_simps [simp]: "lit d [] = []" "lit d (e # t) = (if e = d then [t] else [])"
  by (simp_all add: lit_def)

lemma hex_run_nth: "hex_run k xs \<Longrightarrow> i < k \<Longrightarrow> is_hex (xs ! i)"
  by (auto simp: hex_run_def list_all_length)

lemma hex_run_append_delim:
  "length h < k \<Longrightarrow> \<not> is_hex d \<Longrightarrow> \<not> hex_run k (h @ d # t)"
  using hex_run_nth [of k "h @ d # t" "length h"] by auto

lemma hex_run_exact: "list_all is_hex h \<Longrightarrow> k \<le> length h \<Longrightarrow> hex_run k (h @ t)"
  by (auto simp: hex_run_def list_all_iff dest: in_set_takeD)

lemma operand_then_operand:
  assumes "is_operand A a" and "\<not> is_hex d" and "d \<noteq> 43"
  shows "operand_then d (A @ d # t) = [(A, t)]"
proof (cases "A = [a]")
  case True
  with assms show ?thesis
    by (simp add: operand_then_def operand_alts_def escape_alt_def)
next
  case False
  with assms(1) obtain u h where A: "A = u # 43 # h" and u: "u = 117 \<or> u = 85"
    and len: "length h = 4 \<or> length h = 6" and hex: "list_all is_hex h"
    by (auto simp: is_operand_def split: list.splits)
  from len show ?thesis
  proof
    assume l4: "length h = 4"
    have n6: "\<not> hex_run 6 (h @ d # t)" using l4 assms(2) by (intro hex_run_append_delim) auto
    have y4: "hex_run 4 (h @ d # t)" using l4 hex by (intro hex_run_exact) auto
    show ?thesis using A u n6 y4 l4 assms(3)
      by (auto simp: operand_then_def operand_alts_def escape_alt_def)
  next
    assume l6: "length h = 6"
    have y6: "hex_run 6 (h @ d # t)" using l6 hex by (intro hex_run_exact) auto
    have y4: "hex_run 4 (h @ d # t)" using l6 hex by (intro hex_run_exact) auto
    have "is_hex (h ! 4)" using hex l6 by (simp add: list_all_length)
    then have "h ! 4 \<noteq> d" using assms(2) by auto
    moreover have "drop 4 h = h ! 4 # drop 5 h"
      using l6 Cons_nth_drop_Suc [of 4 h] by simp
    ultimately show ?thesis using A u y6 y4 l6 assms(3)
      by (auto simp: operand_then_def operand_alts_def escape_alt_def)
  qed
qed

lemma not_hex_delims [simp]: "\<not> is_hex 45" "\<not> is_hex 41" "\<not> is_hex 40"
  by (simp_all add: is_hex_def)

lemma range_regex_match_operands:
  assumes "is_operand A a" and "is_operand B b"
  shows "range_regex_match (40 # A @ 45 # B @ 41 # rest) = Some (A, B)"
  using operand_then_operand [OF assms(1), of 45 "B @ 41 # rest"]
    operand_then_operand [OF assms(2), of 41 rest]
  by (simp add: range_regex_match_def)

lemma unicode_form_short [simp]: "unicode_form_regex_match [c] = None"
  by (simp add: unicode_form_regex_match_def)

lemma at_dollar_Nil [simp]: "at_dollar []"
  by (simp add: at_dollar_def)

lemma unicode_form_escape:
  assumes "u = 117 \<or> u = 85" and "length h = 4 \<or> length h = 6" and "list_all is_hex h"
  shows "unicode_form_regex_match (u # 43 # h) = Some h"
  using assms hex_run_exact [of h 4 "[]"] hex_run_exact [of h 6 "[]"]
  by (auto simp: unicode_form_regex_match_def hex_run_def)

lemma range_operand_operand: "is_operand A a \<Longrightarrow> range_operand A = Inr [a]"
  by (auto simp: is_operand_def range_operand_def py_chr_def unicode_form_escape
      split: list.splits)

lemma single_char_long: "2 < length s \<Longrightarrow> \<not> single_char_regex_match s"
  by (auto simp: single_char_regex_match_def at_dollar_def split: list.splits)

lemma is_operand_length: "is_operand A a \<Longrightarrow> 0 < length A"
  by (auto simp: is_operand_def split: list.splits)

lemma parseGuard_range_text:
  assumes "is_operand A a" and "is_operand B b"
  shows "parseGuard lookup (40 # A @ 45 # B @ 41 # rest) =
           (if a \<le> b
            then Inr (Some (BinOp OPS_land (BinOp OPS_gte Candidate (Codepoint a))
                                           (BinOp OPS_lte Candidate (Codepoint b))))
            else Inl (AssertionError ''the codepoint on the left of a range must be less-than-or-equal-to the codepoint on the right''))"
proof -
  have s: "\<not> single_char_regex_match (40 # A @ 45 # B @ 41 # rest)"
    using is_operand_length [OF assms(1)] by (intro single_char_long) simp
  have u: "unicode_form_regex_match (40 # A @ 45 # B @ 41 # rest) = None"
    by (simp add: unicode_form_regex_match_def split: list.splits)
  show ?thesis
    unfolding parseGuard_def
    using s u range_regex_match_operands [OF assms, of rest]
      range_operand_operand [OF assms(1)] range_operand_operand [OF assms(2)]
    by auto
qed

section \<open>The meaning of a predicate\<close>

text \<open>
  Modelled from the spec: what a predicate says of a candidate code point.  The program
  builds predicates and never evaluates one; the format strings that turn an operator
  into target-language text are not among the sources.  The operators mean what their
  names in \<open>BinOp.OPS\<close> say (\<open>land\<close> is the logical and, \<open>lor\<close> the logical or, the others
  compare their operands by ordinal), \<open>Candidate\<close> is the candidate and a \<open>Codepoint\<close> its
  code point.  A tree that is no predicate has no meaning.
\<close>

fun operand_value :: "pychar \<Rightarrow> node \<Rightarrow> pychar option" where
  "operand_value p Candidate = Some p"
| "operand_value p (Codepoint c) = Some c"
| "operand_value p n = None"

fun compare :: "OPS \<Rightarrow> pychar \<Rightarrow> pychar \<Rightarrow> bool option" where
  "compare OPS_eq x y = Some (x = y)"
| "compare OPS_lt x y = Some (x < y)"
| "compare OPS_gt x y = Some (x > y)"
| "compare OPS_lte x y = Some (x \<le> y)"
| "compare OPS_gte x y = Some (x \<ge> y)"
| "compare operation x y = None"

fun holds :: "pychar \<Rightarrow> node \<Rightarrow> bool option" where
  "holds p (Bool v) = Some v"
| "holds p (BinOp OPS_land a b) =
     (case (holds p a, holds p b) of (Some x, Some y) \<Rightarrow> Some (x \<and> y) | _ \<Rightarrow> None)"
| "holds p (BinOp OPS_lor a b) =
     (case (holds p a, holds p b) of (Some x, Some y) \<Rightarrow> Some (x \<or> y) | _ \<Rightarrow> None)"
| "holds p (BinOp operation a b) =
     (case (operand_value p a, operand_value p b) of
        (Some x, Some y) \<Rightarrow> compare operation x y
      | _ \<Rightarrow> None)"
| "holds p n = None"

section \<open>Range guards\<close>

text \<open>
  Claim C7.  For operands \<open>A\<close> and \<open>B\<close> that denote the code points \<open>a \<le> b\<close>, \<open>parseGuard\<close>
  of the text \<open>(A-B)\<close> returns \<open>AND(GTE(Candidate, Codepoint(a)), LTE(Candidate, Codepoint(b)))\<close>,
  and this predicate holds of a candidate \<open>p\<close> exactly when \<open>a \<le> p \<le> b\<close>.
\<close>

theorem parseGuard_range:
  assumes "is_operand A a" and "is_operand B b" and "a \<le> b"
  shows "parseGuard lookup (ascii ''('' @ A @ ascii ''-'' @ B @ ascii '')'') =
           Inr (Some (BinOp OPS_land (BinOp OPS_gte Candidate (Codepoint a))
                                     (BinOp OPS_lte Candidate (Codepoint b)))) \<and>
         holds p (BinOp OPS_land (BinOp OPS_gte Candidate (Codepoint a))
                                 (BinOp OPS_lte Candidate (Codepoint b))) =
           Some (a \<le> p \<and> p \<le> b)"
  using parseGuard_range_text [OF assms(1,2), of lookup "[]"] assms(3)
  by (simp add: ascii_def)

text \<open>The theorem at \<open>(a-z)\<close>: it matches the code points from 97 to 122 and no other.\<close>

theorem parseGuard_range_witness:
  "is_operand (ascii ''a'') 97 \<and> is_operand (ascii ''z'') 122 \<and> (97::nat) \<le> 122 \<and>
   parseGuard no_names (ascii ''(a-z)'') =
     Inr (Some (BinOp OPS_land (BinOp OPS_gte Candidate (Codepoint 97))
                               (BinOp OPS_lte Candidate (Codepoint 122)))) \<and>
   (\<forall>p. holds p (BinOp OPS_land (BinOp OPS_gte Candidate (Codepoint 97))
                                (BinOp OPS_lte Candidate (Codepoint 122))) =
          Some (97 \<le> p \<and> p \<le> 122))"
proof -
  have a: "is_operand (ascii ''a'') 97" by (simp add: is_operand_def ascii_def)
  have z: "is_operand (ascii ''z'') 122" by (simp add: is_operand_def ascii_def)
  have le: "(97::nat) \<le> 122" by simp
  from parseGuard_range [OF a z le, of no_names] a z show ?thesis
    by (simp add: ascii_def)
qed

text \<open>
  Claim C10.  The range pattern is not anchored at the end: for operands as in C7 and
  any text \<open>extra\<close> of one or more characters after the closing parenthesis,
  \<open>parseGuard\<close> does not fail and returns the predicate it returns for \<open>(A-B)\<close> alone.
\<close>

theorem parseGuard_range_trailing:
  assumes "is_operand A a" and "is_operand B b" and "a \<le> b" and "extra \<noteq> []"
  shows "parseGuard lookup (ascii ''('' @ A @ ascii ''-'' @ B @ ascii '')'' @ extra) =
           parseGuard lookup (ascii ''('' @ A @ ascii ''-'' @ B @ ascii '')'') \<and>
         parseGuard lookup (ascii ''('' @ A @ ascii ''-'' @ B @ ascii '')'' @ extra) =
           Inr (Some (BinOp OPS_land (BinOp OPS_gte Candidate (Codepoint a))
                                     (BinOp OPS_lte Candidate (Codepoint b))))"
  using parseGuard_range_text [OF assms(1,2), of lookup "[]"]
    parseGuard_range_text [OF assms(1,2), of lookup extra] assms(3)
  by (simp add: ascii_def)

text \<open>The theorem at \<open>(a-b)x\<close>.\<close>

theorem parseGuard_range_trailing_witness:
  "is_operand (ascii ''a'') 97 \<and> is_operand (ascii ''b'') 98 \<and> (97::nat) \<le> 98 \<and>
   ascii ''x'' \<noteq> [] \<and>
   parseGuard no_names (ascii ''(a-b)x'') = parseGuard no_names (ascii ''(a-b)'') \<and>
   parseGuard no_names (ascii ''(a-b)x'') =
     Inr (Some (BinOp OPS_land (BinOp OPS_gte Candidate (Codepoint 97))
                               (BinOp OPS_lte Candidate (Codepoint 98))))"
proof -
  have a: "is_operand (ascii ''a'') 97" by (simp add: is_operand_def ascii_def)
  have b: "is_operand (ascii ''b'') 98" by (simp add: is_operand_def ascii_def)
  have le: "(97::nat) \<le> 98" by simp
  have x: "ascii ''x'' \<noteq> []" by (simp add: ascii_def)
  have t1: "ascii ''('' @ ascii ''a'' @ ascii ''-'' @ ascii ''b'' @ ascii '')'' @ ascii ''x'' =
            ascii ''(a-b)x''"
    by (simp add: ascii_def)
  have t2: "ascii ''('' @ ascii ''a'' @ ascii ''-'' @ ascii ''b'' @ ascii '')'' = ascii ''(a-b)''"
    by (simp add: ascii_def)
  from parseGuard_range_trailing [OF a b le x, of no_names] a b le x show ?thesis
    unfolding t1 t2 by blast
qed

section \<open>A character and its hex escapes\<close>

text \<open>
  The hex digits of a number, zero-padded to \<open>k\<close> digits (upper case), as the claim writes
  the four-digit and the six-digit escape of a character.
\<close>

definition hex_digit :: "nat \<Rightarrow> pychar" where
  "hex_digit n = (if n < 10 then 48 + n else 55 + n)"

fun hex_digits :: "nat \<Rightarrow> nat \<Rightarrow> pystr" where
  "hex_digits 0 n = []"
| "hex_digits (Suc k) n = hex_digits k (n div 16) @ [hex_digit (n mod 16)]"

lemma hex_digits_numeral:
  "hex_digits (numeral k) n = hex_digits (pred_numeral k) (n div 16) @ [hex_digit (n mod 16)]"
  by (simp only: numeral_eq_Suc [of k] hex_digits.simps)

lemma length_hex_digits [simp]: "length (hex_digits k n) = k"
  by (induction k arbitrary: n) auto

lemma is_hex_hex_digit: "m < 16 \<Longrightarrow> is_hex (hex_digit m)"
  by (auto simp: is_hex_def hex_digit_def)

lemma hex_val_hex_digit: "m < 16 \<Longrightarrow> hex_val (hex_digit m) = m"
  by (auto simp: hex_val_def hex_digit_def)

lemma list_all_hex_digits: "list_all is_hex (hex_digits k n)"
  by (induction k arbitrary: n) (auto simp: is_hex_hex_digit)

lemma int16_snoc: "int16 (h @ [d]) = 16 * int16 h + hex_val d"
  by (simp add: int16_def)

lemma int16_hex_digits: "n < 16 ^ k \<Longrightarrow> int16 (hex_digits k n) = n"
proof (induction k arbitrary: n)
  case 0
  then show ?case by (simp add: int16_def)
next
  case (Suc k)
  then have "n div 16 < 16 ^ k" by (simp add: less_mult_imp_div_less mult.commute)
  with Suc.IH have "int16 (hex_digits k (n div 16)) = n div 16" .
  then show ?case by (simp add: int16_snoc hex_val_hex_digit)
qed

lemma parseGuard_escape:
  assumes "length h = 4 \<or> length h = 6" and "list_all is_hex h" and "int16 h < 0x110000"
    and "u = 117 \<or> u = 85"
  shows "parseGuard lookup (u # 43 # h) = Inr (Some (BinOp OPS_eq Candidate (Codepoint (int16 h))))"
proof -
  have "\<not> single_char_regex_match (u # 43 # h)"
    using assms(1) by (intro single_char_long) auto
  then show ?thesis
    using unicode_form_escape [OF assms(4,1,2)] assms(3)
    by (simp add: parseGuard_def py_chr_def)
qed

text \<open>
  Claim C8.  For a character \<open>c\<close> (an ordinal up to 0x10FFFF), \<open>parseGuard\<close> returns
  \<open>EQ(Candidate, Codepoint(c))\<close> for the character itself, for \<open>U+\<close> with its six hex
  digits and, when \<open>c\<close> has a four-digit escape (it is below 0x10000), for \<open>U+\<close> with its
  four hex digits; the predicate holds of the candidate \<open>c\<close> and of no other.
\<close>

theorem parseGuard_literal_escape:
  assumes "c < 0x110000"
  shows "parseGuard lookup [c] = Inr (Some (BinOp OPS_eq Candidate (Codepoint c))) \<and>
         parseGuard lookup (ascii ''U+'' @ hex_digits 6 c) =
           Inr (Some (BinOp OPS_eq Candidate (Codepoint c))) \<and>
         (c < 0x10000 \<longrightarrow>
            parseGuard lookup (ascii ''U+'' @ hex_digits 4 c) =
              Inr (Some (BinOp OPS_eq Candidate (Codepoint c)))) \<and>
         holds p (BinOp OPS_eq Candidate (Codepoint c)) = Some (p = c)"
proof -
  have lit: "parseGuard lookup [c] = Inr (Some (BinOp OPS_eq Candidate (Codepoint c)))"
    by (simp add: parseGuard_def single_char_regex_match_def)
  have "c < 16 ^ 6" using assms by simp
  then have v6: "int16 (hex_digits 6 c) = c" by (rule int16_hex_digits)
  have six: "parseGuard lookup (85 # 43 # hex_digits 6 c) =
               Inr (Some (BinOp OPS_eq Candidate (Codepoint c)))"
    using parseGuard_escape [of "hex_digits 6 c" 85 lookup] v6 assms
    by (simp add: list_all_hex_digits)
  have four: "parseGuard lookup (85 # 43 # hex_digits 4 c) =
               Inr (Some (BinOp OPS_eq Candidate (Codepoint c)))" if "c < 0x10000"
  proof -
    have "c < 16 ^ 4" using that by simp
    then have v4: "int16 (hex_digits 4 c) = c" by (rule int16_hex_digits)
    show ?thesis
      using parseGuard_escape [of "hex_digits 4 c" 85 lookup] v4 assms
      by (simp add: list_all_hex_digits)
  qed
  from lit six four show ?thesis by (simp add: ascii_def)
qed

text \<open>The theorem at the character \<open>a\<close> with its escapes \<open>U+0061\<close> and \<open>U+000061\<close>.\<close>

theorem parseGuard_literal_escape_witness:
  "(97::nat) < 0x110000 \<and> (97::nat) < 0x10000 \<and>
   hex_digits 4 97 = ascii ''0061'' \<and> hex_digits 6 97 = ascii ''000061'' \<and>
   parseGuard no_names (ascii ''a'') = Inr (Some (BinOp OPS_eq Candidate (Codepoint 97))) \<and>
   parseGuard no_names (ascii ''U+0061'') = Inr (Some (BinOp OPS_eq Candidate (Codepoint 97))) \<and>
   parseGuard no_names (ascii ''U+000061'') = Inr (Some (BinOp OPS_eq Candidate (Codepoint 97))) \<and>
   (\<forall>p. holds p (BinOp OPS_eq Candidate (Codepoint 97)) = Some (p = 97))"
proof -
  have c: "(97::nat) < 0x110000" by simp
  have h4: "hex_digits 4 97 = ascii ''0061''"
    by (simp add: hex_digits_numeral hex_digit_def ascii_def)
  have h6: "hex_digits 6 97 = ascii ''000061''"
    by (simp add: hex_digits_numeral hex_digit_def ascii_def)
  from parseGuard_literal_escape [OF c, of no_names] h4 h6 show ?thesis
    by (simp add: ascii_def)
qed

section \<open>Guards: when \<open>parseGuard\<close> gives no predicate\<close>

text \<open>
  What the amended claim speaks of: a text that is a hex escape whose number \<open>chr\<close>
  rejects; the ordinal an operand of a range denotes (the number of a hex escape, the
  ordinal of a literal character); a text none of the three patterns matches.
\<close>

definition too_large :: "pystr \<Rightarrow> bool" where
  "too_large g = (case unicode_form_regex_match g of Some h \<Rightarrow> 0x110000 \<le> int16 h | None \<Rightarrow> False)"

definition operand_ordinal :: "pystr \<Rightarrow> nat" where
  "operand_ordinal g = (case unicode_form_regex_match g of Some h \<Rightarrow> int16 h | None \<Rightarrow> hd g)"

definition matches_no_pattern :: "pystr \<Rightarrow> bool" where
  "matches_no_pattern g =
     (\<not> single_char_regex_match g \<and> unicode_form_regex_match g = None \<and> range_regex_match g = None)"

lemma single_char_iff: "single_char_regex_match g \<longleftrightarrow> (\<exists>c. g = [c] \<or> g = [c, 10])"
  by (auto simp: single_char_regex_match_def at_dollar_def split: list.splits)

lemma unicode_form_length: "unicode_form_regex_match g = Some h \<Longrightarrow> 6 \<le> length g"
  by (auto simp: unicode_form_regex_match_def hex_run_def split: list.splits if_splits)

lemma unicode_form_head: "unicode_form_regex_match g = Some h \<Longrightarrow> hd g = 117 \<or> hd g = 85"
  by (auto simp: unicode_form_regex_match_def split: list.splits if_splits)

lemma escape_alt_mem:
  assumes "(g, r) \<in> set (escape_alt k s)" and "k = 4 \<or> k = 6"
  shows "s = g @ r \<and> unicode_form_regex_match g \<noteq> None"
proof -
  from assms(1) obtain u rest where s: "s = u # 43 # rest" and u: "u = 117 \<or> u = 85"
    and run: "hex_run k rest" and g: "g = u # 43 # take k rest" and r: "r = drop k rest"
    by (auto simp: escape_alt_def split: list.splits if_splits)
  from run have len: "length (take k rest) = k" and hex: "list_all is_hex (take k rest)"
    by (auto simp: hex_run_def)
  from assms(2) len have "length (take k rest) = 4 \<or> length (take k rest) = 6" by auto
  from unicode_form_escape [OF u this hex] g s r show ?thesis by simp
qed

lemma operand_alts_mem:
  assumes "(g, r) \<in> set (operand_alts s)"
  shows "s = g @ r \<and> (length g = 1 \<or> unicode_form_regex_match g \<noteq> None)"
  using assms escape_alt_mem [of g r 6 s] escape_alt_mem [of g r 4 s]
  by (auto simp: operand_alts_def split: list.splits)

lemma operand_then_mem:
  assumes "(g, r) \<in> set (operand_then d s)"
  shows "s = g @ d # r \<and> (length g = 1 \<or> unicode_form_regex_match g \<noteq> None)"
proof -
  from assms obtain r1 where "(g, r1) \<in> set (operand_alts s)" and "r \<in> set (lit d r1)"
    by (auto simp: operand_then_def)
  moreover from this(2) have "r1 = d # r" by (cases r1) (auto split: if_splits)
  ultimately show ?thesis using operand_alts_mem [of g r1 s] by simp
qed

lemma range_regex_match_Some:
  assumes "range_regex_match s = Some (g1, g2)"
  shows "(\<exists>rest. s = 40 # g1 @ 45 # g2 @ 41 # rest) \<and>
         (length g1 = 1 \<or> unicode_form_regex_match g1 \<noteq> None) \<and>
         (length g2 = 1 \<or> unicode_form_regex_match g2 \<noteq> None)"
proof -
  let ?ms = "[(g1, g2). r0 \<leftarrow> lit 40 s, (g1, r2) \<leftarrow> operand_then 45 r0,
                        (g2, r4) \<leftarrow> operand_then 41 r2]"
  from assms obtain ms where "?ms = (g1, g2) # ms"
    by (auto simp: range_regex_match_def split: list.splits)
  then have "(g1, g2) \<in> set ?ms"
    by (metis list.set_intros(1))
  then obtain r0 r2 r4 where r0: "r0 \<in> set (lit 40 s)"
    and g1: "(g1, r2) \<in> set (operand_then 45 r0)"
    and g2: "(g2, r4) \<in> set (operand_then 41 r2)"
    by auto
  from r0 have "s = 40 # r0" by (cases s) (auto split: if_splits)
  with operand_then_mem [OF g1] operand_then_mem [OF g2] show ?thesis by auto
qed

lemma range_operand_group:
  assumes "length g = 1 \<or> unicode_form_regex_match g \<noteq> None"
  shows "range_operand g =
           (if too_large g then Inl (ValueError ''chr() arg not in range(0x110000)'')
            else Inr [operand_ordinal g])"
proof (cases "unicode_form_regex_match g")
  case None
  with assms obtain c where "g = [c]" by (cases g) auto
  then show ?thesis by (simp add: range_operand_def too_large_def operand_ordinal_def)
next
  case (Some h)
  then show ?thesis by (simp add: range_operand_def too_large_def operand_ordinal_def py_chr_def)
qed

lemma parseGuard_outcome:
  "parseGuard lookup g =
     (if single_char_regex_match g then
        (if length g = 1 then Inr (Some (BinOp OPS_eq Candidate (Codepoint (hd g))))
         else case lookup g of
                Some c \<Rightarrow> Inr (Some (BinOp OPS_eq Candidate (Codepoint c)))
              | None \<Rightarrow> Inl (KeyError g))
      else case unicode_form_regex_match g of
        Some h \<Rightarrow>
          if too_large g then Inl (ValueError ''chr() arg not in range(0x110000)'')
          else Inr (Some (BinOp OPS_eq Candidate (Codepoint (int16 h))))
      | None \<Rightarrow>
         (case range_regex_match g of
            Some (g1, g2) \<Rightarrow>
              if too_large g1 \<or> too_large g2
              then Inl (ValueError ''chr() arg not in range(0x110000)'')
              else if operand_ordinal g1 \<le> operand_ordinal g2
              then Inr (Some (BinOp OPS_land
                               (BinOp OPS_gte Candidate (Codepoint (operand_ordinal g1)))
                               (BinOp OPS_lte Candidate (Codepoint (operand_ordinal g2)))))
              else Inl (AssertionError ''the codepoint on the left of a range must be less-than-or-equal-to the codepoint on the right'')
          | None \<Rightarrow> Inr None))"
proof (cases "single_char_regex_match g")
  case True
  then show ?thesis by (auto simp: parseGuard_def split: option.splits)
next
  case ns: False
  show ?thesis
  proof (cases "unicode_form_regex_match g")
    case (Some h)
    with ns show ?thesis by (simp add: parseGuard_def too_large_def py_chr_def)
  next
    case nu: None
    show ?thesis
    proof (cases "range_regex_match g")
      case None
      with ns nu show ?thesis by (simp add: parseGuard_def)
    next
      case (Some m)
      obtain g1 g2 where m: "m = (g1, g2)" by (cases m)
      from range_regex_match_Some [OF Some [unfolded m]]
      have o1: "range_operand g1 =
                  (if too_large g1 then Inl (ValueError ''chr() arg not in range(0x110000)'')
                   else Inr [operand_ordinal g1])"
        and o2: "range_operand g2 =
                  (if too_large g2 then Inl (ValueError ''chr() arg not in range(0x110000)'')
                   else Inr [operand_ordinal g2])"
        by (simp_all add: range_operand_group)
      from ns nu Some m o1 o2 show ?thesis
        by (auto simp: parseGuard_def)
    qed
  qed
qed

lemma patterns_exclusive:
  "single_char_regex_match g \<Longrightarrow> unicode_form_regex_match g = None \<and> range_regex_match g = None"
  "unicode_form_regex_match g = Some h \<Longrightarrow> range_regex_match g = None"
proof -
  show "unicode_form_regex_match g = None \<and> range_regex_match g = None"
    if "single_char_regex_match g"
  proof -
    from that have l: "length g \<le> 2" by (auto simp: single_char_iff)
    have "unicode_form_regex_match g = None"
      using unicode_form_length [of g] l by (cases "unicode_form_regex_match g") auto
    moreover have "range_regex_match g = None"
    proof (cases "range_regex_match g")
      case (Some m)
      then obtain g1 g2 where "range_regex_match g = Some (g1, g2)" by (cases m) auto
      from range_regex_match_Some [OF this] l show ?thesis by auto
    qed simp
    ultimately show ?thesis by simp
  qed
  show "range_regex_match g = None" if "unicode_form_regex_match g = Some h"
  proof (cases "range_regex_match g")
    case (Some m)
    then obtain g1 g2 where "range_regex_match g = Some (g1, g2)" by (cases m) auto
    from range_regex_match_Some [OF this] unicode_form_head [OF that] show ?thesis by auto
  qed simp
qed

text \<open>
  Claim C2 says that \<open>parseGuard\<close> fails only for a text that matches none of the three
  forms and for a range whose operands are in the wrong order.  \<open>U+110000\<close> is a hex
  escape of six digits, the second pattern matches it and it is no range, and
  \<open>parseGuard\<close> fails on it: \<open>chr\<close> raises \<open>ValueError\<close>.
\<close>

theorem parseGuard_counterexample:
  "unicode_form_regex_match (ascii ''U+110000'') = Some (ascii ''110000'') \<and>
   range_regex_match (ascii ''U+110000'') = None \<and>
   parseGuard no_names (ascii ''U+110000'') = Inl (ValueError ''chr() arg not in range(0x110000)'')"
proof -
  have u: "unicode_form_regex_match (ascii ''U+110000'') = Some (ascii ''110000'')"
    by (simp add: unicode_form_regex_match_def ascii_def hex_run_def is_hex_def)
  have r: "range_regex_match (ascii ''U+110000'') = None"
    using patterns_exclusive(2) [OF u] .
  have "too_large (ascii ''U+110000'')"
    using u by (simp add: too_large_def) (simp add: ascii_def int16_def hex_val_def)
  moreover have "\<not> single_char_regex_match (ascii ''U+110000'')"
    by (simp add: single_char_iff ascii_def)
  ultimately have "parseGuard no_names (ascii ''U+110000'') =
      Inl (ValueError ''chr() arg not in range(0x110000)'')"
    using u by (simp add: parseGuard_outcome)
  with u r show ?thesis by simp
qed

text \<open>
  Claim C2, amended.  \<open>parseGuard\<close> gives no predicate exactly for these texts: a text
  that none of the three patterns matches; a character followed by a newline (the
  first pattern matches it) that is not the name of a character; a hex escape above
  \<open>U+10FFFF\<close>; a text the range pattern matches with an operand that is such an escape or
  with operands in the wrong order.  For the first kind \<open>parseGuard\<close> raises nothing: it
  returns \<open>None\<close>, and only then.  It raises the \<open>AssertionError\<close> of line 69 exactly for a
  range of two code points in the wrong order, as for \<open>(z-a)\<close>.
\<close>

theorem parseGuard_no_predicate:
  "((\<forall>n. parseGuard lookup g \<noteq> Inr (Some n)) \<longleftrightarrow>
      matches_no_pattern g \<or>
      (\<exists>c. g = [c, 10] \<and> lookup g = None) \<or>
      too_large g \<or>
      (\<exists>g1 g2. range_regex_match g = Some (g1, g2) \<and>
         (too_large g1 \<or> too_large g2 \<or> operand_ordinal g2 < operand_ordinal g1))) \<and>
   (parseGuard lookup g = Inr None \<longleftrightarrow> matches_no_pattern g) \<and>
   (parseGuard lookup g =
      Inl (AssertionError ''the codepoint on the left of a range must be less-than-or-equal-to the codepoint on the right'') \<longleftrightarrow>
      (\<exists>g1 g2. range_regex_match g = Some (g1, g2) \<and> \<not> too_large g1 \<and> \<not> too_large g2 \<and>
         operand_ordinal g2 < operand_ordinal g1)) \<and>
   parseGuard lookup (ascii ''(z-a)'') =
     Inl (AssertionError ''the codepoint on the left of a range must be less-than-or-equal-to the codepoint on the right'')"
proof -
  have za: "parseGuard lookup (ascii ''(z-a)'') =
     Inl (AssertionError ''the codepoint on the left of a range must be less-than-or-equal-to the codepoint on the right'')"
    using parseGuard_range_text [of "[122]" 122 "[97]" 97 lookup "[]"]
    by (simp add: is_operand_def ascii_def)
  have "((\<forall>n. parseGuard lookup g \<noteq> Inr (Some n)) \<longleftrightarrow>
        matches_no_pattern g \<or>
        (\<exists>c. g = [c, 10] \<and> lookup g = None) \<or>
        too_large g \<or>
        (\<exists>g1 g2. range_regex_match g = Some (g1, g2) \<and>
           (too_large g1 \<or> too_large g2 \<or> operand_ordinal g2 < operand_ordinal g1))) \<and>
     (parseGuard lookup g = Inr None \<longleftrightarrow> matches_no_pattern g) \<and>
     (parseGuard lookup g =
        Inl (AssertionError ''the codepoint on the left of a range must be less-than-or-equal-to the codepoint on the right'') \<longleftrightarrow>
        (\<exists>g1 g2. range_regex_match g = Some (g1, g2) \<and> \<not> too_large g1 \<and> \<not> too_large g2 \<and>
           operand_ordinal g2 < operand_ordinal g1))"
  proof (cases "single_char_regex_match g")
    case True
    note ex = patterns_exclusive(1) [OF True]
    from True obtain c where "g = [c] \<or> g = [c, 10]" by (auto simp: single_char_iff)
    then show ?thesis
      using True ex
      by (auto simp: parseGuard_outcome matches_no_pattern_def too_large_def split: option.splits)
  next
    case ns: False
    then have n10: "\<And>c. g \<noteq> [c, 10]" by (auto simp: single_char_iff)
    show ?thesis
    proof (cases "unicode_form_regex_match g")
      case (Some h)
      note ex = patterns_exclusive(2) [OF Some]
      from ns Some ex n10 show ?thesis
        by (auto simp: parseGuard_outcome matches_no_pattern_def)
    next
      case nu: None
      then have nl: "\<not> too_large g" by (simp add: too_large_def)
      show ?thesis
      proof (cases "range_regex_match g")
        case None
        with ns nu nl n10 show ?thesis
          by (auto simp: parseGuard_outcome matches_no_pattern_def)
      next
        case (Some m)
        obtain g1 g2 where m: "m = (g1, g2)" by (cases m)
        from ns nu nl n10 Some m show ?thesis
          by (auto simp: parseGuard_outcome matches_no_pattern_def)
      qed
    qed
  qed
  with za show ?thesis by blast
qed

text \<open>
  The theorem at \<open>(z-a)\<close>, a range in the wrong order, and at \<open>ab\<close>, which no pattern
  matches.
\<close>

theorem parseGuard_no_predicate_witness:
  "range_regex_match (ascii ''(z-a)'') = Some (ascii ''z'', ascii ''a'') \<and>
   \<not> too_large (ascii ''z'') \<and> \<not> too_large (ascii ''a'') \<and>
   operand_ordinal (ascii ''a'') < operand_ordinal (ascii ''z'') \<and>
   parseGuard no_names (ascii ''(z-a)'') =
     Inl (AssertionError ''the codepoint on the left of a range must be less-than-or-equal-to the codepoint on the right'') \<and>
   matches_no_pattern (ascii ''ab'') \<and>
   parseGuard no_names (ascii ''ab'') = Inr None"
proof -
  have r: "range_regex_match (ascii ''(z-a)'') = Some (ascii ''z'', ascii ''a'')"
    using range_regex_match_operands [of "[122]" 122 "[97]" 97 "[]"]
    by (simp add: is_operand_def ascii_def)
  have z: "\<not> too_large (ascii ''z'')" and a: "\<not> too_large (ascii ''a'')"
    by (simp_all add: too_large_def ascii_def)
  have o: "operand_ordinal (ascii ''a'') < operand_ordinal (ascii ''z'')"
    by (simp add: operand_ordinal_def ascii_def)
  have "range_regex_match (ascii ''ab'') = None"
    by (simp add: range_regex_match_def ascii_def)
  then have m: "matches_no_pattern (ascii ''ab'')"
    by (simp add: matches_no_pattern_def single_char_iff)
       (simp add: ascii_def unicode_form_regex_match_def)
  from parseGuard_no_predicate [of no_names "ascii ''(z-a)''"] r z a o
  have e: "parseGuard no_names (ascii ''(z-a)'') =
     Inl (AssertionError ''the codepoint on the left of a range must be less-than-or-equal-to the codepoint on the right'')"
    by blast
  from parseGuard_no_predicate [of no_names "ascii ''ab''"] m
  have n: "parseGuard no_names (ascii ''ab'') = Inr None"
    by blast
  from r z a o e m n show ?thesis by blast
qed

section \<open>User-defined emitters that refer to themselves\<close>

text \<open>
  \<open>references doc a b\<close>: the user-defined emitter \<open>a\<close> of the document has an element
  \<open>{"emitter": b}\<close>, which \<open>parseEmitter\<close> resolves when it resolves \<open>a\<close>.
\<close>

definition references :: "document \<Rightarrow> pystr \<Rightarrow> pystr \<Rightarrow> bool" where
  "references doc a b =
     (a \<in> set (userdefined_of doc) \<and>
      (case map_of doc a of
         Some defn \<Rightarrow>
           (case py_iter defn of
              Inr xs \<Rightarrow>
                list_ex (\<lambda>x. case x of
                                JObj d \<Rightarrow> map_of d (ascii ''emitter'') = Some (JStr b)
                              | _ \<Rightarrow> False) xs
            | Inl e \<Rightarrow> False)
       | None \<Rightarrow> False))"

text \<open>
  Three documents: \<open>A\<close> defined as \<open>[{"emitter": "A"}]\<close>; \<open>A\<close> and \<open>B\<close> that refer to each
  other; \<open>A\<close> that refers to \<open>B\<close>, which refers to nothing.
\<close>

definition cyclic_doc :: document where
  "cyclic_doc =
     [(ascii ''TARGET'', JStr (ascii ''html'')),
      (ascii ''RULES'', JArr [JObj [(ascii ''<'', JObj [(ascii ''emitter'', JStr (ascii ''A''))])]]),
      (ascii ''A'', JArr [JObj [(ascii ''emitter'', JStr (ascii ''A''))]])]"

definition mutual_doc :: document where
  "mutual_doc =
     [(ascii ''TARGET'', JStr (ascii ''html'')),
      (ascii ''RULES'', JArr []),
      (ascii ''A'', JArr [JObj [(ascii ''emitter'', JStr (ascii ''B''))]]),
      (ascii ''B'', JArr [JStr (ascii ''x''), JObj [(ascii ''emitter'', JStr (ascii ''A''))]])]"

definition nested_doc :: document where
  "nested_doc =
     [(ascii ''TARGET'', JStr (ascii ''html'')),
      (ascii ''RULES'', JArr []),
      (ascii ''A'', JArr [JObj [(ascii ''emitter'', JStr (ascii ''B''))]]),
      (ascii ''B'', JArr [JStr (ascii ''x'')])]"

lemma references_step:
  assumes "references doc a b" and "map_of d (ascii ''emitter'') = Some (JStr a)"
    and "\<And>d'. map_of d' (ascii ''emitter'') = Some (JStr b) \<Longrightarrow>
           is_error (parseEmitter depth doc (JObj d'))"
  shows "is_error (parseEmitter (Suc depth) doc (JObj d))"
proof -
  from assms(1) have u: "a \<in> set (userdefined_of doc)"
    by (simp add: references_def)
  from assms(1) obtain defn where m: "map_of doc a = Some defn"
    by (cases "map_of doc a") (auto simp: references_def)
  from assms(1) m obtain xs where it: "py_iter defn = Inr xs"
    by (cases "py_iter defn") (auto simp: references_def)
  from assms(1) m it obtain x where xin: "x \<in> set xs"
    and xd: "case x of JObj d \<Rightarrow> map_of d (ascii ''emitter'') = Some (JStr b) | _ \<Rightarrow> False"
    by (auto simp: references_def list_ex_iff)
  from xd obtain d' where "x = JObj d'" and e: "map_of d' (ascii ''emitter'') = Some (JStr b)"
    by (cases x) auto
  with xin have x: "JObj d' \<in> set xs" by simp
  from assms(3) [OF e] x have "is_error (map_err (parseEmitter depth doc) xs)"
    by (intro is_error_map_err)
  with u m it assms(2) show ?thesis
    by (simp add: subscript_def is_error_bind)
qed

lemma cycle_successor:
  assumes "(references doc)\<^sup>*\<^sup>* b c" and "(references doc)\<^sup>+\<^sup>+ c c"
  shows "\<exists>b'. references doc b b' \<and> (references doc)\<^sup>*\<^sup>* b' c"
  using assms by (metis converse_rtranclpE tranclpD)

lemma parseEmitter_reaches_cycle:
  assumes "(references doc)\<^sup>+\<^sup>+ c c"
  shows "(references doc)\<^sup>*\<^sup>* b c \<Longrightarrow> map_of d (ascii ''emitter'') = Some (JStr b) \<Longrightarrow>
         is_error (parseEmitter depth doc (JObj d))"
proof (induction depth arbitrary: b d)
  case 0
  show ?case by simp
next
  case (Suc depth)
  from cycle_successor [OF Suc.prems(1) assms] obtain b'
    where r: "references doc b b'" and s: "(references doc)\<^sup>*\<^sup>* b' c" by blast
  show ?case
    using r Suc.prems(2) Suc.IH [OF s] by (rule references_step)
qed

lemma self_reference:
  "parseEmitter depth cyclic_doc (JObj [(ascii ''emitter'', JStr (ascii ''A''))]) = Inl RecursionError"
proof (induction depth)
  case 0
  show ?case by simp
next
  case (Suc depth)
  have u: "userdefined_name cyclic_doc (JStr (ascii ''A'')) = Some (ascii ''A'')"
    by (simp add: cyclic_doc_def userdefined_of_def codec_keywords_def ascii_def)
  have s: "subscript cyclic_doc (ascii ''A'') = Inr (JArr [JObj [(ascii ''emitter'', JStr (ascii ''A''))]])"
    by (simp add: cyclic_doc_def subscript_def ascii_def)
  from Suc u s show ?case by simp
qed

text \<open>
  Claim C3 says that resolving a name that refers to itself fails with \<open>CycleError\<close>, an
  error of the chain of names being resolved.  \<open>parseEmitter\<close> keeps no such chain and no
  such error exists in the program.  With the interpreter's default limit of 1000
  nested calls, resolving \<open>A\<close> defined as \<open>[{"emitter": "A"}]\<close> ends in the interpreter's
  \<open>RecursionError\<close>, and so does compiling the document.  The same exception ends the
  resolution of a definition without any cycle when the limit is low, and a higher limit
  resolves it: the exception says nothing about a cycle.
\<close>

theorem parseEmitter_cycle_counterexample:
  "references cyclic_doc (ascii ''A'') (ascii ''A'') \<and>
   parseEmitter 1000 cyclic_doc (JObj [(ascii ''emitter'', JStr (ascii ''A''))]) = Inl RecursionError \<and>
   Codec_init no_names 1000 cyclic_doc = Inl RecursionError \<and>
   parseEmitter 2 nested_doc (JObj [(ascii ''emitter'', JStr (ascii ''A''))]) = Inl RecursionError \<and>
   parseEmitter 3 nested_doc (JObj [(ascii ''emitter'', JStr (ascii ''A''))]) =
     Inr (EmitterList [EmitterList [ConstantEmitter (ascii ''x'')]])"
proof -
  have n2: "parseEmitter 2 nested_doc (JObj [(ascii ''emitter'', JStr (ascii ''A''))]) =
              Inl RecursionError"
    by code_simp
  have n3: "parseEmitter 3 nested_doc (JObj [(ascii ''emitter'', JStr (ascii ''A''))]) =
              Inr (EmitterList [EmitterList [ConstantEmitter (ascii ''x'')]])"
    by code_simp
  have r: "references cyclic_doc (ascii ''A'') (ascii ''A'')"
    by (simp add: references_def cyclic_doc_def userdefined_of_def codec_keywords_def ascii_def)
  have g: "parseGuard no_names (ascii ''<'') = Inr (Some (BinOp OPS_eq Candidate (Codepoint 60)))"
    by (simp add: parseGuard_def single_char_regex_match_def ascii_def)
  have c: "Codec_init no_names 1000 cyclic_doc = Inl RecursionError"
    using self_reference [of 1000] g
    by (simp add: Codec_init_def parseRule_def cyclic_doc_def subscript_def ascii_def)
  from r self_reference [of 1000] c n2 n3 show ?thesis by simp
qed

text \<open>
  Claim C3, amended.  Resolving a reference to a user-defined emitter whose definition
  refers to itself, directly or through other user-defined emitters, never returns an
  emitter, whatever the limit of nested calls: \<open>parseEmitter\<close> calls itself until the
  interpreter raises \<open>RecursionError\<close> (or an element of a list resolved before raises
  another exception).  For \<open>A\<close> defined as \<open>[{"emitter": "A"}]\<close> the exception is
  \<open>RecursionError\<close> at every limit.
\<close>

theorem parseEmitter_cycle:
  assumes "(references doc)\<^sup>+\<^sup>+ a a" and "map_of d (ascii ''emitter'') = Some (JStr a)"
  shows "(\<exists>e. parseEmitter depth doc (JObj d) = Inl e) \<and>
         parseEmitter depth cyclic_doc (JObj [(ascii ''emitter'', JStr (ascii ''A''))]) =
           Inl RecursionError"
  using parseEmitter_reaches_cycle [OF assms(1) rtranclp.rtrancl_refl assms(2), of depth]
    self_reference [of depth]
  by (simp add: is_error_iff)

text \<open>The theorem at \<open>A\<close> of \<open>mutual_doc\<close>, which refers to itself through \<open>B\<close>.\<close>

theorem parseEmitter_cycle_witness:
  "(references mutual_doc)\<^sup>+\<^sup>+ (ascii ''A'') (ascii ''A'') \<and>
   map_of [(ascii ''emitter'', JStr (ascii ''A''))] (ascii ''emitter'') = Some (JStr (ascii ''A'')) \<and>
   (\<exists>e. parseEmitter 7 mutual_doc (JObj [(ascii ''emitter'', JStr (ascii ''A''))]) = Inl e) \<and>
   parseEmitter 7 cyclic_doc (JObj [(ascii ''emitter'', JStr (ascii ''A''))]) = Inl RecursionError"
proof -
  have ab: "references mutual_doc (ascii ''A'') (ascii ''B'')"
    by code_simp
  have ba: "references mutual_doc (ascii ''B'') (ascii ''A'')"
    by code_simp
  from ab ba have cyc: "(references mutual_doc)\<^sup>+\<^sup>+ (ascii ''A'') (ascii ''A'')"
    by (rule tranclp.intros(2) [OF tranclp.intros(1)])
  have m: "map_of [(ascii ''emitter'', JStr (ascii ''A''))] (ascii ''emitter'') =
             Some (JStr (ascii ''A''))"
    by simp
  from cyc m parseEmitter_cycle [OF cyc m, of 7] show ?thesis by blast
qed

section \<open>The chain of \<open>If\<close> nodes\<close>

text \<open>
  The right-leaning chain with one \<open>If\<close> per pair of a condition and a true-branch, in
  order, that ends in \<open>final_if\<close>; and what it means that a rule parses to such a pair:
  the rule is a \<open>dict\<close>, \<open>parseGuard\<close> of the key of its first item returns the condition
  and \<open>parseEmitter\<close> of the value of that item returns the true-branch.
\<close>

fun chain :: "(node \<times> node) list \<Rightarrow> node \<Rightarrow> node" where
  "chain [] final_if = final_if"
| "chain ((c, t) # ps) final_if = IfNode c t (chain ps final_if)"

definition rule_parses ::
  "(pystr \<Rightarrow> pychar option) \<Rightarrow> nat \<Rightarrow> document \<Rightarrow> json \<Rightarrow> node \<times> node \<Rightarrow> bool" where
  "rule_parses lookup depth doc rule p =
     (case rule of
        JObj items \<Rightarrow>
          (case items of
             (guard, emitter) # others \<Rightarrow>
               parseGuard lookup guard = Inr (Some (fst p)) \<and>
               parseEmitter depth doc emitter = Inr (snd p)
           | [] \<Rightarrow> False)
      | _ \<Rightarrow> False)"

lemma build_loop_step:
  assumes "build_loop lookup depth doc parents current (rule # rs) = Inr r"
  shows "\<exists>c t obj. rule_parses lookup depth doc rule (c, t) \<and> condition obj = c \<and> iftrue obj = t \<and>
           build_loop lookup depth doc (obj # parents) If_new rs = Inr r"
proof -
  from assms obtain pr where pr: "parseRule lookup depth doc rule = Inr pr"
    and 1: "bind_err (unpack2 pr) (\<lambda>(g, e).
     bind_err (set_condition current g) (\<lambda>current.
     bind_err (set_iftrue current (Some e)) (\<lambda>current.
     bind_err (set_iffalse current (Some (node_of If_new))) (\<lambda>current.
     build_loop lookup depth doc (current # parents) If_new rs)))) = Inr r"
    by (auto simp: bind_err_eq_Inr)
  from 1 obtain g e where u: "pr = Some (g, e)"
    and 2: "bind_err (set_condition current g) (\<lambda>current.
     bind_err (set_iftrue current (Some e)) (\<lambda>current.
     bind_err (set_iffalse current (Some (node_of If_new))) (\<lambda>current.
     build_loop lookup depth doc (current # parents) If_new rs))) = Inr r"
    by (cases pr) (auto simp: bind_err_eq_Inr unpack2_def)
  from 2 obtain c where g: "g = Some c"
    and 3: "build_loop lookup depth doc
              (current\<lparr>condition := c, iftrue := e, iffalse := node_of If_new\<rparr> # parents)
              If_new rs = Inr r"
    by (cases g)
       (auto simp: bind_err_eq_Inr set_condition_def set_iftrue_def set_iffalse_def
          split: if_splits)
  from pr u g have "rule_parses lookup depth doc rule (c, e)"
    by (auto simp: parseRule_def rule_parses_def bind_err_eq_Inr split: json.splits list.splits)
  with 3 show ?thesis by (intro exI [of _ c] exI [of _ e] exI) auto
qed

lemma build_loop_chain:
  "build_loop lookup depth doc parents current rs = Inr (parents', current') \<Longrightarrow>
   \<exists>ps. list_all2 (rule_parses lookup depth doc) rs ps \<and>
        (\<forall>final_if. plug parents' final_if = plug parents (chain ps final_if)) \<and>
        current' = (if rs = [] then current else If_new)"
proof (induction rs arbitrary: parents current)
  case Nil
  then show ?case by simp
next
  case (Cons rule rs)
  from build_loop_step [OF Cons.prems] obtain c t obj
    where p: "rule_parses lookup depth doc rule (c, t)"
      and o: "condition obj = c" "iftrue obj = t"
      and b: "build_loop lookup depth doc (obj # parents) If_new rs = Inr (parents', current')"
    by blast
  from Cons.IH [OF b] obtain ps
    where l: "list_all2 (rule_parses lookup depth doc) rs ps"
      and q: "\<forall>final_if. plug parents' final_if = plug (obj # parents) (chain ps final_if)"
      and e: "current' = (if rs = [] then If_new else If_new)"
    by blast
  from p l have "list_all2 (rule_parses lookup depth doc) (rule # rs) ((c, t) # ps)" by simp
  moreover from q o have "\<forall>final_if. plug parents' final_if = plug parents (chain ((c, t) # ps) final_if)"
    by simp
  moreover from e have "current' = (if rule # rs = [] then current else If_new)" by simp
  ultimately show ?case by blast
qed

text \<open>
  A document with two rules, a user-defined emitter and a default emitter, with the
  \<open>Codec\<close> it compiles to; a document whose default emitter is the empty string.
\<close>

definition escape_doc :: document where
  "escape_doc =
     [(ascii ''TARGET'', JStr (ascii ''html'')),
      (ascii ''RULES'',
         JArr [JObj [(ascii ''<'', JObj [(ascii ''emitter'', JStr (ascii ''HEX''))])],
               JObj [(ascii ''(a-z)'', JObj [(ascii ''emitter'', JStr (ascii ''E''))])]]),
      (ascii ''E'', JArr [JStr (ascii ''&''), JObj [(ascii ''emitter'', JStr (ascii ''DEC''))]]),
      (ascii ''DEFAULT-EMITTER'', JObj [(ascii ''emitter'', JStr (ascii ''IDENTITY''))])]"

definition escape_codec :: Codec where
  "escape_codec =
     \<lparr>codec = escape_doc,
      default_emitter = JObj [(ascii ''emitter'', JStr (ascii ''IDENTITY''))],
      rules = JArr [JObj [(ascii ''<'', JObj [(ascii ''emitter'', JStr (ascii ''HEX''))])],
                    JObj [(ascii ''(a-z)'', JObj [(ascii ''emitter'', JStr (ascii ''E''))])]],
      target = JStr (ascii ''html''),
      userdefined_emitters = [ascii ''E''],
      root =
        IfNode (BinOp OPS_eq Candidate (Codepoint 60)) (Builtin (ascii ''HEX''))
          (IfNode (BinOp OPS_land (BinOp OPS_gte Candidate (Codepoint 97))
                                  (BinOp OPS_lte Candidate (Codepoint 122)))
             (EmitterList [ConstantEmitter (ascii ''&''), Builtin (ascii ''DEC'')])
             (IfNode (Bool True) (Builtin (ascii ''IDENTITY'')) Nop))\<rparr>"

lemma escape_codec_compiled: "Codec_init no_names 10 escape_doc = Inr escape_codec"
  by code_simp

definition empty_default_doc :: document where
  "empty_default_doc =
     [(ascii ''TARGET'', JStr (ascii ''html'')), (ascii ''RULES'', JArr []),
      (ascii ''DEFAULT-EMITTER'', JStr [])]"

text \<open>
  Claim C1 says that the true-branch of the last \<open>If\<close> is \<open>parseEmitter(default)\<close> whenever
  a default emitter was supplied.  The document \<open>empty_default_doc\<close> supplies the default
  emitter \<open>""\<close>, which \<open>parseEmitter\<close> turns into \<open>ConstantEmitter("")\<close>, and the true-branch
  of the last \<open>If\<close> of its codec is \<open>Nop\<close>.
\<close>

theorem Codec_init_chain_counterexample:
  "map_of empty_default_doc (ascii ''DEFAULT-EMITTER'') = Some (JStr []) \<and>
   parseEmitter 10 empty_default_doc (JStr []) = Inr (ConstantEmitter []) \<and>
   map_sum id root (Codec_init no_names 10 empty_default_doc) = Inr (IfNode (Bool True) Nop Nop)"
  by code_simp

text \<open>
  Claim C1, amended.  When a codec compiles, its tree is the right-leaning chain with
  one \<open>If\<close> per rule, in the order of \<open>RULES\<close>: the condition of the \<open>i\<close>-th \<open>If\<close> is what
  \<open>parseGuard\<close> returns for the guard of the \<open>i\<close>-th rule, its true-branch what
  \<open>parseEmitter\<close> returns for the emitter of that rule, and its false-branch the next
  \<open>If\<close>.  The chain ends in an \<open>If\<close> with the condition \<open>true\<close> and the false-branch
  \<open>Nop\<close>; its true-branch is \<open>parseEmitter(default)\<close> if the document has a default
  emitter whose truth value is true (a string or a \<open>dict\<close> that is not empty), and \<open>Nop\<close>
  if it has none or one whose truth value is false.
\<close>

theorem Codec_init_chain:
  assumes "Codec_init lookup depth doc = Inr c"
  shows "\<exists>rule_list ps final.
           subscript doc (ascii ''RULES'') = Inr (rules c) \<and>
           py_iter (rules c) = Inr rule_list \<and>
           list_all2 (rule_parses lookup depth doc) rule_list ps \<and>
           default_emitter c =
             (case map_of doc (ascii ''DEFAULT-EMITTER'') of Some v \<Rightarrow> v | None \<Rightarrow> JNull) \<and>
           (if truthy (default_emitter c)
            then parseEmitter depth doc (default_emitter c) = Inr final
            else final = Nop) \<and>
           root c = chain ps (IfNode (Bool True) final Nop)"
proof -
  let ?dflt = "case map_of doc (ascii ''DEFAULT-EMITTER'') of Some v \<Rightarrow> v | None \<Rightarrow> JNull"
  from assms obtain rs tg rule_list parents current final_obj
    where rs: "subscript doc (ascii ''RULES'') = Inr rs"
      and it: "py_iter rs = Inr rule_list"
      and bl: "build_loop lookup depth doc [] If_new rule_list = Inr (parents, current)"
      and fin: "(if truthy ?dflt
                 then bind_err (parseEmitter depth doc ?dflt)
                        (\<lambda>e. set_iftrue (current\<lparr>condition := Bool True\<rparr>) (Some e))
                 else Inr (current\<lparr>condition := Bool True\<rparr>)) = Inr final_obj"
      and c: "c = \<lparr>codec = doc, default_emitter = ?dflt, rules = rs, target = tg,
                   userdefined_emitters = userdefined_of doc,
                   root = plug parents (node_of final_obj)\<rparr>"
    by (auto simp: Codec_init_def Let_def bind_err_eq_Inr set_condition_def split: prod.splits)
  from build_loop_chain [OF bl] obtain ps
    where l: "list_all2 (rule_parses lookup depth doc) rule_list ps"
      and q: "\<forall>final_if. plug parents final_if = chain ps final_if"
      and cur: "current = If_new"
    by auto
  define final where "final = iftrue final_obj"
  from fin cur have f1: "node_of final_obj = IfNode (Bool True) final Nop"
    by (auto simp: final_def node_of_def If_new_def bind_err_eq_Inr set_iftrue_def split: if_splits)
  from fin cur have f2: "if truthy ?dflt then parseEmitter depth doc ?dflt = Inr final else final = Nop"
    by (auto simp: final_def If_new_def bind_err_eq_Inr set_iftrue_def split: if_splits)
  from rs it l c q f1 f2 show ?thesis
    by (intro exI [of _ rule_list] exI [of _ ps] exI [of _ final]) simp
qed

text \<open>The theorem at \<open>escape_doc\<close>.\<close>

theorem Codec_init_chain_witness:
  "Codec_init no_names 10 escape_doc = Inr escape_codec \<and>
   (\<exists>rule_list ps final.
      subscript escape_doc (ascii ''RULES'') = Inr (rules escape_codec) \<and>
      py_iter (rules escape_codec) = Inr rule_list \<and>
      list_all2 (rule_parses no_names 10 escape_doc) rule_list ps \<and>
      default_emitter escape_codec =
        (case map_of escape_doc (ascii ''DEFAULT-EMITTER'') of Some v \<Rightarrow> v | None \<Rightarrow> JNull) \<and>
      (if truthy (default_emitter escape_codec)
       then parseEmitter 10 escape_doc (default_emitter escape_codec) = Inr final
       else final = Nop) \<and>
      root escape_codec = chain ps (IfNode (Bool True) final Nop))"
  using Codec_init_chain [OF escape_codec_compiled] escape_codec_compiled by blast

end
